theory Spec2Isabelle
  imports Main
begin

section \<open>Receipt ledger writer: the Apps Script endpoint with duplicate detection\<close>

text \<open>
  The development embeds \<^verbatim>\<open>src/receipt-scanner/google_apps_script.js\<close> (the revision with
  duplicate detection, raw-text shadow columns and the Debug sheet): \<^verbatim>\<open>doPost\<close>,
  \<^verbatim>\<open>findDuplicate\<close>, \<^verbatim>\<open>writeDebugLog\<close> and \<^verbatim>\<open>migrateOldRows\<close>. The two earlier revisions
  kept in the repository (nine columns, no raw-text columns) are not embedded.

  Modelling decisions.
  \<^item> The fields of a receipt are typed as the data model types them: optional text. An absent
    field is \<open>None\<close> (JavaScript \<^verbatim>\<open>undefined\<close>); \<open>Some s\<close> is the string \<open>s\<close>. The flag
    \<^verbatim>\<open>force\<close> is a boolean. An item is the three texts that the template literal of the script
    interpolates (a numeric quantity is represented by its decimal text).
  \<^item> Text is ASCII: \<^verbatim>\<open>toLowerCase\<close> maps \<open>A\<close>..\<open>Z\<close> to \<open>a\<close>..\<open>z\<close>, and \<^verbatim>\<open>trim\<close> strips
    tab, line feed, vertical tab, form feed, carriage return and space. On text,
    \<^verbatim>\<open>toString()\<close> is the identity and is not written.
  \<^item> The spreadsheet is the tabular store of the specification: a sheet is the list of its rows,
    \<^verbatim>\<open>getLastRow()\<close> is the length of that list, a cell reads back as the value that was
    written, and an empty cell reads back as the empty string. Formatting calls (font,
    background, number format, column width) do not change cell values.
  \<^item> \<^verbatim>\<open>doPost\<close> below is the handler on a run in which only \<^verbatim>\<open>JSON.parse\<close> or the read of a
    field of \<^verbatim>\<open>null\<close> raises. \<^verbatim>\<open>doPostTry\<close> is the handler with every statement of its
    \<^verbatim>\<open>try\<close> block that can raise: a storage call that fails, or the use of a field value that
    is not text. The two agree on a run in which no such statement raises.
  \<^item> \<^verbatim>\<open>new Date().toISOString()\<close> is an input of the request (a \<open>clock\<close>), one reading for
    the Debug sheet and one for the ledger row.
\<close>

subsection \<open>Text operations\<close>

definition isWhite :: "char \<Rightarrow> bool" where
  "isWhite c = (c \<in> set [CHR 0x09, CHR 0x0A, CHR 0x0B, CHR 0x0C, CHR 0x0D, CHR '' ''])"

definition trim :: "string \<Rightarrow> string" where
  "trim s = rev (dropWhile isWhite (rev (dropWhile isWhite s)))"

definition toLowerChar :: "char \<Rightarrow> char" where
  "toLowerChar c =
     (let n = (of_char c :: nat) in if 65 \<le> n \<and> n \<le> 90 then char_of (n + 32) else c)"

definition toLowerCase :: "string \<Rightarrow> string" where
  "toLowerCase s = map toLowerChar s"

text \<open>\<^verbatim>\<open>xs.join(sep)\<close> on an array of strings.\<close>

fun join :: "string \<Rightarrow> string list \<Rightarrow> string" where
  "join sep [] = []"
| "join sep [x] = x"
| "join sep (x # y # ys) = x @ sep @ join sep (y # ys)"

text \<open>
  \<^verbatim>\<open>v || d\<close> for an optional text field \<open>v\<close> of the payload: \<^verbatim>\<open>undefined\<close> and the empty
  string are falsy. \<open>cellOr\<close> is the same operator on a cell that was read from the sheet.
\<close>

definition orElse :: "string option \<Rightarrow> string \<Rightarrow> string" where
  "orElse v d = (case v of None \<Rightarrow> d | Some s \<Rightarrow> if s = [] then d else s)"

definition cellOr :: "string \<Rightarrow> string \<Rightarrow> string" where
  "cellOr a d = (if a = [] then d else a)"

text \<open>\<^verbatim>\<open>${v}\<close> in a template literal, for an optional text field.\<close>

definition interpolate :: "string option \<Rightarrow> string" where
  "interpolate v = (case v of None \<Rightarrow> ''undefined'' | Some s \<Rightarrow> s)"

subsection \<open>Data model\<close>

record item =
  description :: "string option"
  quantity :: "string option"
  price :: "string option"

record receipt =
  merchantName :: "string option"
  date :: "string option"
  time :: "string option"
  total :: "string option"
  currency :: "string option"
  tax :: "string option"
  items :: "item list option"
  force :: bool

text \<open>
  What \<^verbatim>\<open>JSON.parse(e.postData.contents)\<close> gives: an exception (with its stringified form), the
  value \<^verbatim>\<open>null\<close>, or a receipt object. (Any other JSON value, a number, a string, a boolean or
  an array, has none of the properties the script reads and behaves as the object with every
  field absent.)
\<close>

datatype payload = Malformed string | ParsedNull | Parsed receipt

text \<open>
  A row of the active sheet, columns A to K. Column G (Item Count) holds a number in a data
  row and a label in the header row; all other columns hold text.
\<close>

datatype cell = Txt string | Num nat

record row =
  cDate :: string
  cTime :: string
  cMerchant :: string
  cTotal :: string
  cCurrency :: string
  cTax :: string
  cItemCount :: cell
  cItems :: string
  cTimestamp :: string
  cRawDate :: string
  cRawTotal :: string

text \<open>
  The spreadsheet: the active sheet (the ledger) and the sheet named \<^verbatim>\<open>Debug\<close>, which does not
  exist until the first log line is written. A Debug row is the list of its cells.
\<close>

record store =
  sheet :: "row list"
  debugSheet :: "string list list option"

record clock =
  debugNow :: string
  rowNow :: string

text \<open>The object \<^verbatim>\<open>{merchant, date, total}\<close> reported for an existing receipt.\<close>

record existing =
  exMerchant :: string
  exDate :: string
  exTotal :: string

text \<open>
  The three response shapes of \<^verbatim>\<open>doPost\<close>:
  \<^verbatim>\<open>{success: true, message, row}\<close>,
  \<^verbatim>\<open>{isDuplicate: true, row, existingReceipt, message}\<close> and
  \<^verbatim>\<open>{success: false, error}\<close>.
\<close>

datatype response =
    Accepted string nat
  | Duplicate nat existing string
  | Failure string

subsection \<open>findDuplicate\<close>

text \<open>The object \<^verbatim>\<open>rowData\<close> built for each scanned row (lines 154 to 158).\<close>

record rowData =
  merchant :: string
  rawDate :: string
  rawTotal :: string

definition rowDataOf :: "row \<Rightarrow> rowData" where
  "rowDataOf r =
     \<lparr> merchant = cMerchant r,
       rawDate = cellOr (cRawDate r) (cDate r),
       rawTotal = cellOr (cRawTotal r) (cTotal r) \<rparr>"

definition merchantMatch :: "rowData \<Rightarrow> receipt \<Rightarrow> bool" where
  "merchantMatch rd newReceipt =
     (trim (toLowerCase (cellOr (merchant rd) [])) =
      trim (toLowerCase (orElse (merchantName newReceipt) [])))"

definition dateMatch :: "rowData \<Rightarrow> receipt \<Rightarrow> bool" where
  "dateMatch rd newReceipt =
     (trim (cellOr (rawDate rd) []) = trim (orElse (date newReceipt) []))"

definition totalMatch :: "rowData \<Rightarrow> receipt \<Rightarrow> bool" where
  "totalMatch rd newReceipt =
     (trim (cellOr (rawTotal rd) []) = trim (orElse (total newReceipt) []))"

definition rowMatches :: "receipt \<Rightarrow> row \<Rightarrow> bool" where
  "rowMatches newReceipt r =
     (merchantMatch (rowDataOf r) newReceipt \<and>
      dateMatch (rowDataOf r) newReceipt \<and>
      totalMatch (rowDataOf r) newReceipt)"

definition existingOf :: "rowData \<Rightarrow> existing" where
  "existingOf rd = \<lparr> exMerchant = merchant rd, exDate = rawDate rd, exTotal = rawTotal rd \<rparr>"

text \<open>
  The loop of lines 151 to 178 over \<^verbatim>\<open>data\<close>, from index \<open>i\<close> on; the result is the pair
  \<^verbatim>\<open>{row, data}\<close>, or \<open>None\<close> for \<^verbatim>\<open>null\<close>.
\<close>

fun scanRows :: "receipt \<Rightarrow> row list \<Rightarrow> nat \<Rightarrow> (nat \<times> existing) option" where
  "scanRows newReceipt [] i = None"
| "scanRows newReceipt (r # rs) i =
     (if rowMatches newReceipt r then Some (i + 2, existingOf (rowDataOf r))
      else scanRows newReceipt rs (Suc i))"

definition getLastRow :: "row list \<Rightarrow> nat" where
  "getLastRow sh = length sh"

definition findDuplicate :: "row list \<Rightarrow> receipt \<Rightarrow> (nat \<times> existing) option" where
  "findDuplicate sh newReceipt =
     (let lastRow = getLastRow sh in
      if lastRow \<le> 1 then None
      else scanRows newReceipt (take (lastRow - 1) (drop 1 sh)) 0)"

subsection \<open>writeDebugLog\<close>

definition debugHeader :: "string list" where
  "debugHeader =
     [''Timestamp'', ''Result'', ''Inc Merchant'', ''Inc Date'', ''Inc Total'',
      ''Sheet Row 2 Col J (RawDate)'', ''Sheet Row 2 Col K (RawTotal)'',
      ''Sheet Row 2 Col C (Merchant)'']"

text \<open>\<^verbatim>\<open>debugSheet.getRange(1, 1).getValue()\<close>: the empty string when the cell is empty.\<close>

definition firstCell :: "string list list \<Rightarrow> string" where
  "firstCell d = (case d of [] \<Rightarrow> [] | r # _ \<Rightarrow> (case r of [] \<Rightarrow> [] | c # _ \<Rightarrow> c))"

text \<open>
  The function never raises (its body is one \<^verbatim>\<open>try\<close>) and writes to the Debug sheet only. Its
  parameter \<^verbatim>\<open>duplicate\<close> is not read. \<^verbatim>\<open>ss.getActiveSheet()\<close> is the ledger sheet.
\<close>

definition writeDebugLog ::
    "string \<Rightarrow> receipt \<Rightarrow> (nat \<times> existing) option \<Rightarrow> string \<Rightarrow> store \<Rightarrow> store" where
  "writeDebugLog now newReceipt duplicate result st =
     (let d0 = (case debugSheet st of None \<Rightarrow> [debugHeader] | Some d \<Rightarrow> d);
          d1 = (if length d0 = 0 \<or> firstCell d0 \<noteq> ''Timestamp'' then debugHeader # d0 else d0);
          mainSheet = sheet st;
          row2 = (if getLastRow mainSheet > 1 then Some (mainSheet ! 1) else None);
          sheetMerchant = (case row2 of None \<Rightarrow> [] | Some r \<Rightarrow> cellOr (cMerchant r) []);
          sheetRawDate = (case row2 of None \<Rightarrow> [] | Some r \<Rightarrow> cellOr (cRawDate r) []);
          sheetRawTotal = (case row2 of None \<Rightarrow> [] | Some r \<Rightarrow> cellOr (cRawTotal r) []);
          line = [now, result,
                  orElse (merchantName newReceipt) [],
                  orElse (date newReceipt) [],
                  orElse (total newReceipt) [],
                  cellOr sheetRawDate ''(empty)'',
                  cellOr sheetRawTotal ''(empty)'',
                  cellOr sheetMerchant ''(empty)'']
      in st\<lparr> debugSheet := Some (d1 @ [line]) \<rparr>)"

subsection \<open>doPost\<close>

definition headerRow :: row where
  "headerRow =
     \<lparr> cDate = ''Date'', cTime = ''Time'', cMerchant = ''Merchant'', cTotal = ''Total'',
       cCurrency = ''Currency'', cTax = ''Tax'', cItemCount = Txt ''Item Count'',
       cItems = ''Items (Description x Qty @ Price)'', cTimestamp = ''Timestamp'',
       cRawDate = ''Raw Date'', cRawTotal = ''Raw Total'' \<rparr>"

text \<open>Lines 39 to 59: the header is appended when the sheet has no row.\<close>

definition ensureHeader :: "store \<Rightarrow> store" where
  "ensureHeader st =
     (if getLastRow (sheet st) = 0 then st\<lparr> sheet := sheet st @ [headerRow] \<rparr> else st)"

text \<open>Lines 84 to 91.\<close>

definition itemLine :: "receipt \<Rightarrow> item \<Rightarrow> string" where
  "itemLine data it =
     interpolate (description it) @ '' x'' @ interpolate (quantity it) @ '' @ '' @
     interpolate (currency data) @ '' '' @ interpolate (price it)"

definition itemsText :: "receipt \<Rightarrow> string" where
  "itemsText data =
     (case items data of
        None \<Rightarrow> ''No items''
      | Some xs \<Rightarrow> if length xs > 0 then join ''; '' (map (itemLine data) xs) else ''No items'')"

text \<open>Lines 94 to 106: the array \<^verbatim>\<open>rowData\<close> of \<^verbatim>\<open>doPost\<close>.\<close>

definition newRowData :: "string \<Rightarrow> receipt \<Rightarrow> row" where
  "newRowData now data =
     \<lparr> cDate = orElse (date data) [],
       cTime = orElse (time data) [],
       cMerchant = orElse (merchantName data) ''Unknown'',
       cTotal = orElse (total data) ''0.00'',
       cCurrency = orElse (currency data) ''USD'',
       cTax = orElse (tax data) ''0.00'',
       cItemCount = Num (case items data of None \<Rightarrow> 0 | Some xs \<Rightarrow> length xs),
       cItems = itemsText data,
       cTimestamp = now,
       cRawDate = orElse (date data) [],
       cRawTotal = orElse (total data) [] \<rparr>"

text \<open>
  Lines 108 to 123: the row is written at \<^verbatim>\<open>getLastRow() + 1\<close>, directly below the last row,
  and the response carries the row count after the write.
\<close>

definition saveRow :: "string \<Rightarrow> receipt \<Rightarrow> store \<Rightarrow> response \<times> store" where
  "saveRow now data st =
     (let st' = st\<lparr> sheet := sheet st @ [newRowData now data] \<rparr>
      in (Accepted ''Receipt saved successfully'' (getLastRow (sheet st')), st'))"

definition duplicateMessage :: "existing \<Rightarrow> string" where
  "duplicateMessage ex =
     ''Duplicate found: '' @ exMerchant ex @ '' on '' @ exDate ex @ '' for '' @
     ''undefined'' @ '' '' @ exTotal ex"

text \<open>The stringified \<^verbatim>\<open>TypeError\<close> of reading \<^verbatim>\<open>data.force\<close> when \<^verbatim>\<open>data\<close> is \<^verbatim>\<open>null\<close>.\<close>

definition nullPayloadError :: string where
  "nullPayloadError = ''TypeError: Cannot read properties of null (reading 'force')''"

definition doPost :: "clock \<Rightarrow> payload \<Rightarrow> store \<Rightarrow> response \<times> store" where
  "doPost clk p st =
     (case p of
        Malformed err \<Rightarrow> (Failure err, st)
      | ParsedNull \<Rightarrow> (Failure nullPayloadError, ensureHeader st)
      | Parsed data \<Rightarrow>
          (let st1 = ensureHeader st in
           if \<not> force data then
             (case findDuplicate (sheet st1) data of
                Some (n, ex) \<Rightarrow>
                  (Duplicate n ex (duplicateMessage ex),
                   writeDebugLog (debugNow clk) data (Some (n, ex)) ''DUPLICATE FOUND'' st1)
              | None \<Rightarrow>
                  saveRow (rowNow clk) data
                    (writeDebugLog (debugNow clk) data None ''NO DUPLICATE'' st1))
           else saveRow (rowNow clk) data st1))"

subsection \<open>migrateOldRows\<close>

text \<open>
  Lines 257 to 273, for one row of the snapshot \<^verbatim>\<open>data\<close>: column A is copied to column J and
  column D to column K, each when it is not empty.
\<close>

definition migrateRow :: "row \<Rightarrow> row" where
  "migrateRow r =
     (let r1 = (if cDate r \<noteq> [] then r\<lparr> cRawDate := cDate r \<rparr> else r)
      in if cTotal r \<noteq> [] then r1\<lparr> cRawTotal := cTotal r \<rparr> else r1)"

definition migrateOldRows :: "store \<Rightarrow> store" where
  "migrateOldRows st =
     (let lastRow = getLastRow (sheet st) in
      if lastRow \<le> 1 then st
      else st\<lparr> sheet := take 1 (sheet st) @ map migrateRow (take (lastRow - 1) (drop 1 (sheet st))) \<rparr>)"

subsection \<open>doPost with the exceptions its catch block answers\<close>

text \<open>
  The statements of the \<^verbatim>\<open>try\<close> block of \<^verbatim>\<open>doPost\<close> that call the spreadsheet service or use
  a field of the payload, named by their source lines:
  \<^item> \<open>GetActiveSheet\<close>, line 36; \<open>GetLastRow39\<close>, line 39; \<open>AppendHeaderRow\<close>, line 40;
    \<open>FormatHeaderRow\<close>, lines 55 to 58;
  \<^item> \<open>FindDuplicateCall\<close>, line 64: the reads of lines 139 and 148 and the comparisons of
    lines 161 to 163, where \<^verbatim>\<open>toLowerCase\<close> or \<^verbatim>\<open>toString\<close> raises on a value that has no such
    method (a merchant name that is a number, for one);
  \<^item> \<open>BuildRow\<close>, lines 84 to 106, where \<^verbatim>\<open>data.items.map\<close> raises when \<^verbatim>\<open>items\<close> is a string
    and \<^verbatim>\<open>item.description\<close> raises when an item is \<^verbatim>\<open>null\<close>;
  \<^item> \<open>GetLastRow109\<close>, line 109; \<open>SetValues\<close>, line 110; \<open>SetNumberFormat\<close>, line 113;
    \<open>AutoResizeColumns\<close>, line 116; \<open>GetLastRow122\<close>, line 122.
  The response service of \<^verbatim>\<open>createCorsResponse\<close>, which the \<^verbatim>\<open>catch\<close> block uses as well, is
  taken not to raise.
\<close>

datatype step =
    GetActiveSheet | GetLastRow39 | AppendHeaderRow | FormatHeaderRow
  | FindDuplicateCall | BuildRow
  | GetLastRow109 | SetValues | SetNumberFormat | AutoResizeColumns | GetLastRow122

text \<open>
  One run of the handler: \<open>raisesAt s\<close> is the stringified exception that statement \<open>s\<close>
  raises when it is reached, if it raises; a call that raises has written nothing.
  \<open>debugLogAborts\<close> says whether \<^verbatim>\<open>writeDebugLog\<close> is cut short by an exception of its own,
  which its \<^verbatim>\<open>try\<close> swallows, and in which state that leaves the Debug sheet.
\<close>

record run =
  raisesAt :: "step \<Rightarrow> string option"
  debugLogAborts :: "string list list option option"

text \<open>The \<^verbatim>\<open>catch\<close> block: statement \<open>s\<close> raising ends the request with the store as it is.\<close>

definition onRaise :: "run \<Rightarrow> step \<Rightarrow> store \<Rightarrow> response \<times> store \<Rightarrow> response \<times> store" where
  "onRaise rn s st k = (case raisesAt rn s of Some e \<Rightarrow> (Failure e, st) | None \<Rightarrow> k)"

definition writeDebugLogTry ::
    "run \<Rightarrow> string \<Rightarrow> receipt \<Rightarrow> (nat \<times> existing) option \<Rightarrow> string \<Rightarrow> store \<Rightarrow> store" where
  "writeDebugLogTry rn now newReceipt duplicate result st =
     (case debugLogAborts rn of
        None \<Rightarrow> writeDebugLog now newReceipt duplicate result st
      | Some d \<Rightarrow> st\<lparr> debugSheet := d \<rparr>)"

text \<open>Lines 36 to 59, followed by the rest \<open>k\<close> of the block.\<close>

definition headerTry :: "run \<Rightarrow> store \<Rightarrow> (store \<Rightarrow> response \<times> store) \<Rightarrow> response \<times> store" where
  "headerTry rn st k =
     onRaise rn GetActiveSheet st
       (onRaise rn GetLastRow39 st
          (if getLastRow (sheet st) = 0 then
             onRaise rn AppendHeaderRow st
               (let st1 = st\<lparr> sheet := sheet st @ [headerRow] \<rparr>
                in onRaise rn FormatHeaderRow st1 (k st1))
           else k st))"

text \<open>Lines 84 to 123.\<close>

definition saveRowTry :: "run \<Rightarrow> string \<Rightarrow> receipt \<Rightarrow> store \<Rightarrow> response \<times> store" where
  "saveRowTry rn now data st =
     onRaise rn BuildRow st
       (onRaise rn GetLastRow109 st
          (onRaise rn SetValues st
             (let st' = st\<lparr> sheet := sheet st @ [newRowData now data] \<rparr>
              in onRaise rn SetNumberFormat st'
                   (onRaise rn AutoResizeColumns st'
                      (onRaise rn GetLastRow122 st'
                         (Accepted ''Receipt saved successfully'' (getLastRow (sheet st')), st'))))))"

definition doPostTry :: "run \<Rightarrow> clock \<Rightarrow> payload \<Rightarrow> store \<Rightarrow> response \<times> store" where
  "doPostTry rn clk p st =
     (case p of
        Malformed err \<Rightarrow> (Failure err, st)
      | ParsedNull \<Rightarrow> headerTry rn st (\<lambda>st1. (Failure nullPayloadError, st1))
      | Parsed data \<Rightarrow>
          headerTry rn st (\<lambda>st1.
            if \<not> force data then
              onRaise rn FindDuplicateCall st1
                (case findDuplicate (sheet st1) data of
                   Some (n, ex) \<Rightarrow>
                     (Duplicate n ex (duplicateMessage ex),
                      writeDebugLogTry rn (debugNow clk) data (Some (n, ex)) ''DUPLICATE FOUND'' st1)
                 | None \<Rightarrow>
                     saveRowTry rn (rowNow clk) data
                       (writeDebugLogTry rn (debugNow clk) data None ''NO DUPLICATE'' st1))
            else saveRowTry rn (rowNow clk) data st1))"

text \<open>The run in which nothing raises, and the run in which statement \<open>s\<close> alone raises.\<close>

definition quiet :: run where
  "quiet = \<lparr> raisesAt = (\<lambda>s. None), debugLogAborts = None \<rparr>"

definition raisesOnly :: "step \<Rightarrow> string \<Rightarrow> run" where
  "raisesOnly s e = \<lparr> raisesAt = (\<lambda>t. if t = s then Some e else None), debugLogAborts = None \<rparr>"

subsection \<open>Store states reached from the empty spreadsheet\<close>

definition emptyStore :: store where
  "emptyStore = \<lparr> sheet = [], debugSheet = None \<rparr>"

inductive reachable :: "store \<Rightarrow> bool" where
  init: "reachable emptyStore"
| post: "reachable st \<Longrightarrow> reachable (snd (doPost clk p st))"
| migrate: "reachable st \<Longrightarrow> reachable (migrateOldRows st)"

subsection \<open>Concrete requests used as test inputs\<close>

definition exClock :: clock where
  "exClock = \<lparr> debugNow = ''2024-01-02T10:00:00.000Z'', rowNow = ''2024-01-02T10:00:01.000Z'' \<rparr>"

text \<open>The receipt \<^verbatim>\<open>{merchantName: "  acme ", date: "2024-01-01", total: "10.00"}\<close>.\<close>

definition acmeStored :: receipt where
  "acmeStored =
     \<lparr> merchantName = Some ''  acme '', date = Some ''2024-01-01'', time = None,
       total = Some ''10.00'', currency = None, tax = None, items = None, force = False \<rparr>"

definition acmeCandidate :: receipt where
  "acmeCandidate = acmeStored\<lparr> merchantName := Some ''Acme'' \<rparr>"

definition acmeOtherTotal :: receipt where
  "acmeOtherTotal = acmeStored\<lparr> total := Some ''10.01'' \<rparr>"

definition acmeForced :: receipt where
  "acmeForced = acmeStored\<lparr> force := True \<rparr>"

text \<open>The receipts \<^verbatim>\<open>{date: "2024-01-01", total: "10.00"}\<close> and
  \<^verbatim>\<open>{merchantName: "Acme", date: "2024-01-01"}\<close>.\<close>

definition noMerchant :: receipt where
  "noMerchant = acmeStored\<lparr> merchantName := None \<rparr>"

definition noTotal :: receipt where
  "noTotal = acmeCandidate\<lparr> total := None \<rparr>"

text \<open>The receipt \<^verbatim>\<open>{merchantName: "Acme", total: "10.00"}\<close>.\<close>

definition noDate :: receipt where
  "noDate = acmeCandidate\<lparr> date := None \<rparr>"

text \<open>
  A sheet as the earlier revisions left it, with a row whose raw-text cells are empty, and a
  row whose raw-text cells differ from its Date and Total cells.
\<close>

definition legacyRow :: row where
  "legacyRow =
     \<lparr> cDate = ''2023-12-31'', cTime = ''09:15'', cMerchant = ''Corner Shop'', cTotal = ''5.00'',
       cCurrency = ''USD'', cTax = ''0.00'', cItemCount = Num 0, cItems = ''No items'',
       cTimestamp = ''2023-12-31T09:16:00.000Z'', cRawDate = [], cRawTotal = [] \<rparr>"

definition driftedRow :: row where
  "driftedRow =
     \<lparr> cDate = ''1/2/2024'', cTime = [], cMerchant = ''Acme'', cTotal = ''7'',
       cCurrency = ''USD'', cTax = ''0.00'', cItemCount = Num 0, cItems = ''No items'',
       cTimestamp = ''2024-01-02T08:00:00.000Z'', cRawDate = ''2024-01-02'', cRawTotal = ''7.00'' \<rparr>"

definition legacyStore :: store where
  "legacyStore = \<lparr> sheet = [headerRow, legacyRow, driftedRow], debugSheet = None \<rparr>"

text \<open>The store after one accepted submission to the empty spreadsheet.\<close>

definition afterAcme :: store where
  "afterAcme = snd (doPost exClock (Parsed acmeStored) emptyStore)"

text \<open>The store after three forced submissions of the same receipt.\<close>

definition afterThreeForced :: store where
  "afterThreeForced =
     snd (doPost exClock (Parsed acmeForced)
       (snd (doPost exClock (Parsed acmeForced)
         (snd (doPost exClock (Parsed acmeForced) emptyStore)))))"

text \<open>A receipt with one item, \<^verbatim>\<open>{description: "Coffee", quantity: 1, price: "3.50"}\<close>, in USD.\<close>

definition coffeeReceipt :: receipt where
  "coffeeReceipt =
     acmeCandidate\<lparr> currency := Some ''USD'',
       items := Some [\<lparr> description = Some ''Coffee'', quantity = Some ''1'',
                        price = Some ''3.50'' \<rparr>] \<rparr>"

section \<open>Basic facts about the embedding\<close>

subsection \<open>Text\<close>

lemma isWhite_lower: "isWhite c \<Longrightarrow> toLowerChar c = c"
  by (auto simp: isWhite_def toLowerChar_def)

lemma dropWhile_white_prefix:
  "list_all isWhite p \<Longrightarrow> dropWhile isWhite (p @ t) = dropWhile isWhite t"
  by (induction p) auto

lemma dropWhile_all_white: "list_all isWhite p \<Longrightarrow> dropWhile isWhite p = []"
  by (induction p) auto

lemma trim_pad:
  assumes p: "list_all isWhite p" and q: "list_all isWhite q"
  shows "trim (p @ s @ q) = trim s"
proof (cases "list_all isWhite s")
  case True
  then have "list_all isWhite (p @ s @ q)" using p q by simp
  then have a: "dropWhile isWhite (p @ s @ q) = []" by (rule dropWhile_all_white)
  have b: "dropWhile isWhite s = []" using True by (rule dropWhile_all_white)
  show ?thesis unfolding trim_def a b by (rule refl)
next
  case False
  then obtain x where x: "x \<in> set s" "\<not> isWhite x" by (auto simp: list_all_iff)
  have "dropWhile isWhite (p @ s @ q) = dropWhile isWhite (s @ q)"
    using p by (rule dropWhile_white_prefix)
  also have "\<dots> = dropWhile isWhite s @ q"
    using x by (rule dropWhile_append1)
  finally have "rev (dropWhile isWhite (p @ s @ q)) = rev q @ rev (dropWhile isWhite s)"
    by simp
  moreover have "list_all isWhite (rev q)" using q by (simp add: list_all_iff)
  ultimately show ?thesis
    by (simp add: trim_def dropWhile_white_prefix)
qed

lemma toLowerCase_white: "list_all isWhite p \<Longrightarrow> toLowerCase p = p"
  by (induction p) (auto simp: toLowerCase_def isWhite_lower)

lemma trim_lower_pad:
  assumes "list_all isWhite p" "list_all isWhite q"
  shows "trim (toLowerCase (p @ s @ q)) = trim (toLowerCase s)"
proof -
  have "toLowerCase (p @ s @ q) = p @ toLowerCase s @ q"
    using assms toLowerCase_white by (simp add: toLowerCase_def)
  then show ?thesis using assms by (simp add: trim_pad)
qed

lemma cellOr_self [simp]: "cellOr a [] = a"
  by (simp add: cellOr_def)

lemma orElse_Some_nil [simp]: "orElse (Some s) [] = s"
  by (simp add: orElse_def)

subsection \<open>The scan\<close>

lemma findDuplicate_tl: "findDuplicate sh c = scanRows c (tl sh) 0"
  by (cases sh) (simp_all add: findDuplicate_def getLastRow_def Let_def drop_Suc)

lemma scanRows_None: "scanRows c rs i = None \<longleftrightarrow> (\<forall>r \<in> set rs. \<not> rowMatches c r)"
  by (induction rs arbitrary: i) auto

lemma scanRows_first:
  assumes "k < length rs" and "rowMatches c (rs ! k)"
    and "\<forall>j < k. \<not> rowMatches c (rs ! j)"
  shows "scanRows c rs i = Some (i + k + 2, existingOf (rowDataOf (rs ! k)))"
  using assms
proof (induction rs arbitrary: i k)
  case Nil
  then show ?case by simp
next
  case (Cons r rs)
  show ?case
  proof (cases k)
    case 0
    with Cons.prems show ?thesis by simp
  next
    case (Suc k')
    from Cons.prems Suc have nm: "\<not> rowMatches c r" by auto
    have "scanRows c rs (Suc i) = Some (Suc i + k' + 2, existingOf (rowDataOf (rs ! k')))"
    proof (rule Cons.IH)
      show "k' < length rs" using Cons.prems Suc by simp
      show "rowMatches c (rs ! k')" using Cons.prems Suc by simp
      show "\<forall>j<k'. \<not> rowMatches c (rs ! j)"
      proof (intro allI impI)
        fix j assume "j < k'"
        then have "Suc j < k" using Suc by simp
        with Cons.prems have "\<not> rowMatches c ((r # rs) ! Suc j)" by blast
        then show "\<not> rowMatches c (rs ! j)" by simp
      qed
    qed
    with nm Suc show ?thesis by simp
  qed
qed

lemma scanRows_Some:
  assumes "scanRows c rs i = Some (n, ex)"
  shows "\<exists>k < length rs. n = i + k + 2 \<and> rowMatches c (rs ! k) \<and>
           (\<forall>j < k. \<not> rowMatches c (rs ! j)) \<and> ex = existingOf (rowDataOf (rs ! k))"
  using assms
proof (induction rs arbitrary: i)
  case Nil
  then show ?case by simp
next
  case (Cons r rs)
  show ?case
  proof (cases "rowMatches c r")
    case True
    with Cons.prems have "n = i + 0 + 2" "ex = existingOf (rowDataOf r)" by auto
    with True show ?thesis by (intro exI[of _ 0]) simp
  next
    case False
    with Cons.prems have "scanRows c rs (Suc i) = Some (n, ex)" by simp
    from Cons.IH[OF this] obtain k where k: "k < length rs" "n = Suc i + k + 2"
      "rowMatches c (rs ! k)" "\<forall>j < k. \<not> rowMatches c (rs ! j)"
      "ex = existingOf (rowDataOf (rs ! k))" by blast
    have "\<forall>j < Suc k. \<not> rowMatches c ((r # rs) ! j)"
      using False k(4) by (auto simp: less_Suc_eq_0_disj)
    with k show ?thesis by (intro exI[of _ "Suc k"]) simp
  qed
qed

lemma ex_least_match:
  assumes "k < length rs" "rowMatches c (rs ! k)"
  shows "\<exists>m \<le> k. rowMatches c (rs ! m) \<and> (\<forall>j < m. \<not> rowMatches c (rs ! j))"
proof -
  let ?P = "\<lambda>m. rowMatches c (rs ! m)"
  have "?P (LEAST m. ?P m)" using assms(2) by (rule LeastI)
  moreover have "(LEAST m. ?P m) \<le> k" using assms(2) by (rule Least_le)
  moreover have "\<forall>j < (LEAST m. ?P m). \<not> ?P j" using not_less_Least by blast
  ultimately show ?thesis by blast
qed

lemma scanRows_append_new:
  assumes "scanRows c rs i = None" and "rowMatches c r"
  shows "scanRows c (rs @ [r]) i = Some (i + length rs + 2, existingOf (rowDataOf r))"
proof -
  have "\<forall>j < length rs. \<not> rowMatches c ((rs @ [r]) ! j)"
    using assms(1) by (auto simp: scanRows_None nth_append)
  moreover have "rowMatches c ((rs @ [r]) ! length rs)" using assms(2) by simp
  moreover have "length rs < length (rs @ [r])" by simp
  ultimately have "scanRows c (rs @ [r]) i =
      Some (i + length rs + 2, existingOf (rowDataOf ((rs @ [r]) ! length rs)))"
    by (intro scanRows_first) auto
  then show ?thesis by simp
qed

lemma rowMatches_newRowData:
  assumes "merchantName data = Some m" "m \<noteq> []" "total data = Some t" "t \<noteq> []"
  shows "rowMatches data (newRowData now data)"
  using assms
  by (simp add: rowMatches_def merchantMatch_def dateMatch_def totalMatch_def rowDataOf_def
      newRowData_def orElse_def cellOr_def)

subsection \<open>The request handler\<close>

lemma sheet_writeDebugLog [simp]: "sheet (writeDebugLog now r d res st) = sheet st"
  by (simp add: writeDebugLog_def Let_def)

lemma sheet_ensureHeader:
  "sheet (ensureHeader st) = (if sheet st = [] then [headerRow] else sheet st)"
  by (simp add: ensureHeader_def getLastRow_def)

lemma sheet_ensureHeader_nonempty: "sheet (ensureHeader st) \<noteq> []"
  by (simp add: sheet_ensureHeader)

lemma ensureHeader_nonempty: "sheet st \<noteq> [] \<Longrightarrow> ensureHeader st = st"
  by (simp add: ensureHeader_def getLastRow_def)

lemma debugSheet_ensureHeader [simp]: "debugSheet (ensureHeader st) = debugSheet st"
  by (simp add: ensureHeader_def)

lemma findDuplicate_ensureHeader:
  "findDuplicate (sheet (ensureHeader st)) c = findDuplicate (sheet st) c"
  by (simp add: sheet_ensureHeader findDuplicate_tl)

lemma saveRow_eq:
  "saveRow now data st =
     (Accepted ''Receipt saved successfully'' (Suc (length (sheet st))),
      st\<lparr> sheet := sheet st @ [newRowData now data] \<rparr>)"
  by (simp add: saveRow_def getLastRow_def Let_def)

lemma doPost_forced:
  "force data \<Longrightarrow> doPost clk (Parsed data) st = saveRow (rowNow clk) data (ensureHeader st)"
  by (simp add: doPost_def)

lemma doPost_no_match:
  "\<not> force data \<Longrightarrow> findDuplicate (sheet st) data = None \<Longrightarrow>
   doPost clk (Parsed data) st =
     saveRow (rowNow clk) data
       (writeDebugLog (debugNow clk) data None ''NO DUPLICATE'' (ensureHeader st))"
  by (simp add: doPost_def findDuplicate_ensureHeader)

lemma doPost_match:
  "\<not> force data \<Longrightarrow> findDuplicate (sheet st) data = Some (n, ex) \<Longrightarrow>
   doPost clk (Parsed data) st =
     (Duplicate n ex (duplicateMessage ex),
      writeDebugLog (debugNow clk) data (Some (n, ex)) ''DUPLICATE FOUND'' st)"
proof -
  assume a: "\<not> force data" "findDuplicate (sheet st) data = Some (n, ex)"
  then have "sheet st \<noteq> []" by (auto simp: findDuplicate_tl)
  then have "ensureHeader st = st" by (rule ensureHeader_nonempty)
  with a show ?thesis by (simp add: doPost_def)
qed

lemma doPost_Duplicate_cases:
  assumes "fst (doPost clk p st) = Duplicate n ex msg"
  obtains data where "p = Parsed data" "\<not> force data"
    "findDuplicate (sheet st) data = Some (n, ex)" "msg = duplicateMessage ex"
proof (cases p)
  case (Malformed e)
  with assms show ?thesis by (simp add: doPost_def)
next
  case ParsedNull
  with assms show ?thesis by (simp add: doPost_def)
next
  case (Parsed data)
  show ?thesis
  proof (cases "force data")
    case True
    with assms Parsed show ?thesis by (simp add: doPost_forced saveRow_eq)
  next
    case False
    show ?thesis
    proof (cases "findDuplicate (sheet st) data")
      case None
      with assms Parsed False show ?thesis by (simp add: doPost_no_match saveRow_eq)
    next
      case (Some d)
      obtain n' ex' where d: "d = (n', ex')" by (cases d)
      with assms Parsed False Some have "n' = n" "ex' = ex" "msg = duplicateMessage ex"
        by (auto simp add: doPost_match)
      with that Parsed False Some d show ?thesis by auto
    qed
  qed
qed

lemma doPost_Accepted:
  assumes "fst (doPost clk (Parsed data) st) = Accepted msg n"
  shows "sheet (snd (doPost clk (Parsed data) st)) =
           sheet (ensureHeader st) @ [newRowData (rowNow clk) data] \<and>
         n = Suc (length (sheet (ensureHeader st)))"
  using assms
  by (auto simp add: doPost_def saveRow_eq Let_def split: option.splits if_splits)

lemma doPost_Accepted_row:
  assumes "fst (doPost clk (Parsed data) st) = Accepted msg n"
  shows "sheet (snd (doPost clk (Parsed data) st)) ! (n - 1) = newRowData (rowNow clk) data"
  using doPost_Accepted[OF assms] by (simp add: nth_append)

lemma doPost_sheet_cases:
  "sheet (snd (doPost clk p st)) = sheet st \<or>
   sheet (snd (doPost clk p st)) = sheet (ensureHeader st) \<or>
   (\<exists>data. sheet (snd (doPost clk p st)) = sheet (ensureHeader st) @ [newRowData (rowNow clk) data])"
  by (cases p) (auto simp add: doPost_def saveRow_eq Let_def split: option.splits)

subsection \<open>The migration and the header row\<close>

lemma sheet_migrateOldRows:
  "sheet (migrateOldRows st) =
     (case sheet st of [] \<Rightarrow> [] | h # rs \<Rightarrow> h # map migrateRow rs)"
  by (cases "sheet st") (auto simp add: migrateOldRows_def getLastRow_def Let_def drop_Suc)

lemma migrateRow_newRowData:
  "cRawDate (migrateRow (newRowData now data)) = orElse (date data) [] \<and>
   cRawTotal (migrateRow (newRowData now data)) = orElse (total data) ''0.00''"
  by (simp add: migrateRow_def newRowData_def orElse_def Let_def split: option.splits)

lemma newRowData_not_header: "newRowData now data \<noteq> headerRow"
proof
  assume "newRowData now data = headerRow"
  then have "cItemCount (newRowData now data) = cItemCount headerRow" by simp
  then show False by (simp add: newRowData_def headerRow_def)
qed

lemma cItemCount_migrateRow [simp]: "cItemCount (migrateRow r) = cItemCount r"
  by (simp add: migrateRow_def Let_def)

lemma cItemCount_newRowData: "\<exists>k. cItemCount (newRowData now data) = Num k"
  by (simp add: newRowData_def)

lemma reachable_header_inv:
  assumes "reachable st"
  shows "sheet st = [] \<or>
         (hd (sheet st) = headerRow \<and> (\<forall>r \<in> set (tl (sheet st)). \<exists>k. cItemCount r = Num k))"
  using assms
proof (induction rule: reachable.induct)
  case init
  show ?case by (simp add: emptyStore_def)
next
  case (post st clk p)
  let ?st' = "snd (doPost clk p st)"
  have h: "sheet (ensureHeader st) = [] \<or>
         (hd (sheet (ensureHeader st)) = headerRow \<and>
          (\<forall>r \<in> set (tl (sheet (ensureHeader st))). \<exists>k. cItemCount r = Num k))"
    using post.IH by (auto simp add: sheet_ensureHeader)
  have ne: "sheet (ensureHeader st) \<noteq> []" by (rule sheet_ensureHeader_nonempty)
  from doPost_sheet_cases[of clk p st] show ?case
  proof (elim disjE exE)
    assume "sheet ?st' = sheet st"
    with post.IH show ?thesis by simp
  next
    assume "sheet ?st' = sheet (ensureHeader st)"
    with h show ?thesis by simp
  next
    fix data assume a: "sheet ?st' = sheet (ensureHeader st) @ [newRowData (rowNow clk) data]"
    from h ne have "hd (sheet ?st') = headerRow" using a by simp
    moreover have "\<forall>r \<in> set (tl (sheet ?st')). \<exists>k. cItemCount r = Num k"
      using h ne a cItemCount_newRowData[of "rowNow clk" data] by auto
    ultimately show ?thesis by simp
  qed
next
  case (migrate st)
  show ?case
  proof (cases "sheet st")
    case Nil
    then show ?thesis by (simp add: sheet_migrateOldRows)
  next
    case (Cons h rs)
    with migrate.IH show ?thesis by (auto simp add: sheet_migrateOldRows)
  qed
qed

lemma count_header_once:
  assumes "hd sh = headerRow" "sh \<noteq> []" "\<forall>r \<in> set (tl sh). \<exists>k. cItemCount r = Num k"
  shows "count_list sh headerRow = 1"
proof -
  obtain rs where sh: "sh = headerRow # rs" using assms(1,2) by (cases sh) auto
  have "headerRow \<notin> set rs"
  proof
    assume "headerRow \<in> set rs"
    with assms(3) sh obtain k where "cItemCount headerRow = Num k" by auto
    then show False by (simp add: headerRow_def)
  qed
  then have "count_list rs headerRow = 0" by (simp add: count_list_0_iff)
  with sh show ?thesis by simp
qed

subsection \<open>The handler with its exceptions\<close>

lemma onRaise_quiet [simp]: "onRaise quiet s st k = k"
  by (simp add: onRaise_def quiet_def)

lemma writeDebugLogTry_quiet [simp]: "writeDebugLogTry quiet = writeDebugLog"
  by (intro ext) (simp add: writeDebugLogTry_def quiet_def)

lemma headerTry_quiet: "headerTry quiet st k = k (ensureHeader st)"
  by (simp add: headerTry_def ensureHeader_def Let_def)

lemma saveRowTry_quiet: "saveRowTry quiet now data st = saveRow now data st"
  by (simp add: saveRowTry_def saveRow_def Let_def)

text \<open>On a run in which nothing raises, the two handlers are the same function.\<close>

lemma doPostTry_quiet: "doPostTry quiet clk p st = doPost clk p st"
  by (cases p)
    (simp_all add: doPostTry_def doPost_def headerTry_quiet saveRowTry_quiet Let_def
      split: option.splits)

lemma sheet_writeDebugLogTry [simp]: "sheet (writeDebugLogTry rn now r d res st) = sheet st"
  by (cases "debugLogAborts rn") (simp_all add: writeDebugLogTry_def)

lemma sheet_ensureHeader_cases:
  "sheet (ensureHeader st) = sheet st \<or> sheet st = [] \<and> sheet (ensureHeader st) = [headerRow]"
  by (simp add: sheet_ensureHeader)

lemma headerTry_cases:
  "(\<exists>s e. raisesAt rn s = Some e \<and> headerTry rn st k = (Failure e, st)) \<or>
   (\<exists>e. raisesAt rn FormatHeaderRow = Some e \<and> sheet st = [] \<and>
        headerTry rn st k = (Failure e, st\<lparr> sheet := sheet st @ [headerRow] \<rparr>)) \<or>
   headerTry rn st k = k (ensureHeader st)"
  unfolding headerTry_def onRaise_def ensureHeader_def getLastRow_def Let_def
  by (cases "raisesAt rn GetActiveSheet"; cases "raisesAt rn GetLastRow39";
      cases "raisesAt rn AppendHeaderRow"; cases "raisesAt rn FormatHeaderRow";
      cases "sheet st = []") (simp_all, blast+)

lemma saveRowTry_cases:
  "(\<exists>s e. s \<in> {BuildRow, GetLastRow109, SetValues} \<and> raisesAt rn s = Some e \<and>
      saveRowTry rn now data st = (Failure e, st)) \<or>
   (\<exists>s e. s \<in> {SetNumberFormat, AutoResizeColumns, GetLastRow122} \<and> raisesAt rn s = Some e \<and>
      saveRowTry rn now data st = (Failure e, st\<lparr> sheet := sheet st @ [newRowData now data] \<rparr>)) \<or>
   saveRowTry rn now data st = saveRow now data st"
proof -
  let ?st' = "st\<lparr> sheet := sheet st @ [newRowData now data] \<rparr>"
  show ?thesis
  proof (cases "raisesAt rn BuildRow")
    case (Some e)
    then have "saveRowTry rn now data st = (Failure e, st)"
      by (simp add: saveRowTry_def onRaise_def)
    with Some show ?thesis by blast
  next
    case n1: None
    show ?thesis
    proof (cases "raisesAt rn GetLastRow109")
      case (Some e)
      with n1 have "saveRowTry rn now data st = (Failure e, st)"
        by (simp add: saveRowTry_def onRaise_def)
      with Some show ?thesis by blast
    next
      case n2: None
      show ?thesis
      proof (cases "raisesAt rn SetValues")
        case (Some e)
        with n1 n2 have "saveRowTry rn now data st = (Failure e, st)"
          by (simp add: saveRowTry_def onRaise_def)
        with Some show ?thesis by blast
      next
        case n3: None
        show ?thesis
        proof (cases "raisesAt rn SetNumberFormat")
          case (Some e)
          with n1 n2 n3 have "saveRowTry rn now data st = (Failure e, ?st')"
            by (simp add: saveRowTry_def onRaise_def Let_def)
          with Some show ?thesis by blast
        next
          case n4: None
          show ?thesis
          proof (cases "raisesAt rn AutoResizeColumns")
            case (Some e)
            with n1 n2 n3 n4 have "saveRowTry rn now data st = (Failure e, ?st')"
              by (simp add: saveRowTry_def onRaise_def Let_def)
            with Some show ?thesis by blast
          next
            case n5: None
            show ?thesis
            proof (cases "raisesAt rn GetLastRow122")
              case (Some e)
              with n1 n2 n3 n4 n5 have "saveRowTry rn now data st = (Failure e, ?st')"
                by (simp add: saveRowTry_def onRaise_def Let_def)
              with Some show ?thesis by blast
            next
              case None
              with n1 n2 n3 n4 n5 show ?thesis
                by (simp add: saveRowTry_def saveRow_def onRaise_def Let_def)
            qed
          qed
        qed
      qed
    qed
  qed
qed

lemma saveRowTry_sheet:
  "sheet (snd (saveRowTry rn now data st)) = sheet st \<or>
   sheet (snd (saveRowTry rn now data st)) = sheet st @ [newRowData now data]"
  using saveRowTry_cases[of rn now data st] by (auto simp add: saveRow_eq)

lemma doPostTry_sheet_cases:
  "sheet (snd (doPostTry rn clk p st)) = sheet st \<or>
   sheet (snd (doPostTry rn clk p st)) = sheet (ensureHeader st) \<or>
   (\<exists>data. p = Parsed data \<and>
      sheet (snd (doPostTry rn clk p st)) = sheet (ensureHeader st) @ [newRowData (rowNow clk) data])"
proof (cases p)
  case (Malformed e)
  then show ?thesis by (simp add: doPostTry_def)
next
  case ParsedNull
  let ?k = "\<lambda>st1. (Failure nullPayloadError, st1)"
  have r: "doPostTry rn clk p st = headerTry rn st ?k" using ParsedNull by (simp add: doPostTry_def)
  from headerTry_cases[of rn st ?k] show ?thesis
    unfolding r by (auto simp add: sheet_ensureHeader)
next
  case (Parsed data)
  let ?h = "ensureHeader st"
  let ?k = "\<lambda>st1.
            if \<not> force data then
              onRaise rn FindDuplicateCall st1
                (case findDuplicate (sheet st1) data of
                   Some (n, ex) \<Rightarrow>
                     (Duplicate n ex (duplicateMessage ex),
                      writeDebugLogTry rn (debugNow clk) data (Some (n, ex)) ''DUPLICATE FOUND'' st1)
                 | None \<Rightarrow>
                     saveRowTry rn (rowNow clk) data
                       (writeDebugLogTry rn (debugNow clk) data None ''NO DUPLICATE'' st1))
            else saveRowTry rn (rowNow clk) data st1"
  have r: "doPostTry rn clk p st = headerTry rn st ?k" using Parsed by (simp add: doPostTry_def)
  have k: "sheet (snd (?k ?h)) = sheet ?h \<or>
           sheet (snd (?k ?h)) = sheet ?h @ [newRowData (rowNow clk) data]"
    using saveRowTry_sheet[of rn "rowNow clk" data ?h]
      saveRowTry_sheet[of rn "rowNow clk" data
        "writeDebugLogTry rn (debugNow clk) data None ''NO DUPLICATE'' ?h"]
    by (auto simp add: onRaise_def split: option.splits)
  from headerTry_cases[of rn st ?k] show ?thesis
  proof (elim disjE exE conjE)
    fix s e assume "headerTry rn st ?k = (Failure e, st)"
    with r show ?thesis by simp
  next
    fix e assume "sheet st = []"
      "headerTry rn st ?k = (Failure e, st\<lparr> sheet := sheet st @ [headerRow] \<rparr>)"
    with r show ?thesis by (simp add: sheet_ensureHeader)
  next
    assume "headerTry rn st ?k = ?k ?h"
    with r k Parsed show ?thesis by auto
  qed
qed

lemma migrateRow_eq:
  "migrateRow r =
     r\<lparr> cRawDate := cellOr (cDate r) (cRawDate r), cRawTotal := cellOr (cTotal r) (cRawTotal r) \<rparr>"
  by (simp add: migrateRow_def cellOr_def Let_def)

lemma debugSheet_migrateOldRows: "debugSheet (migrateOldRows st) = debugSheet st"
  by (simp add: migrateOldRows_def Let_def)

text \<open>The outcome of a run in which one statement raises.\<close>

lemma raisesAt_raisesOnly [simp]: "raisesAt (raisesOnly s e) t = (if t = s then Some e else None)"
  by (simp add: raisesOnly_def)

lemma debugLogAborts_raisesOnly [simp]: "debugLogAborts (raisesOnly s e) = None"
  by (simp add: raisesOnly_def)

lemma writeDebugLogTry_raisesOnly [simp]:
  "writeDebugLogTry (raisesOnly s e) now r d res st = writeDebugLog now r d res st"
  by (simp add: writeDebugLogTry_def)

lemma doPostTry_single_raise:
  "doPostTry rn clk (Malformed e) st = (Failure e, st) \<and>
   doPostTry quiet clk ParsedNull st = (Failure nullPayloadError, ensureHeader st) \<and>
   (s \<in> {GetActiveSheet, GetLastRow39} \<longrightarrow>
      doPostTry (raisesOnly s e) clk (Parsed data) st = (Failure e, st)) \<and>
   doPostTry (raisesOnly AppendHeaderRow e) clk (Parsed data) st =
     (if sheet st = [] then (Failure e, st) else doPost clk (Parsed data) st) \<and>
   doPostTry (raisesOnly FormatHeaderRow e) clk (Parsed data) st =
     (if sheet st = [] then (Failure e, ensureHeader st) else doPost clk (Parsed data) st) \<and>
   doPostTry (raisesOnly FindDuplicateCall e) clk (Parsed data) st =
     (if force data then doPost clk (Parsed data) st else (Failure e, ensureHeader st)) \<and>
   (s \<in> {BuildRow, GetLastRow109, SetValues} \<longrightarrow>
      doPostTry (raisesOnly s e) clk (Parsed data) st =
        (if \<not> force data \<and> findDuplicate (sheet st) data \<noteq> None
         then doPost clk (Parsed data) st
         else (Failure e,
               if force data then ensureHeader st
               else writeDebugLog (debugNow clk) data None ''NO DUPLICATE'' (ensureHeader st)))) \<and>
   (s \<in> {SetNumberFormat, AutoResizeColumns, GetLastRow122} \<longrightarrow>
      doPostTry (raisesOnly s e) clk (Parsed data) st =
        (if \<not> force data \<and> findDuplicate (sheet st) data \<noteq> None
         then doPost clk (Parsed data) st
         else (Failure e, snd (doPost clk (Parsed data) st))))"
proof -
  have a: "doPostTry rn clk (Malformed e) st = (Failure e, st)" by (simp add: doPostTry_def)
  have b: "doPostTry quiet clk ParsedNull st = (Failure nullPayloadError, ensureHeader st)"
    by (simp add: doPostTry_quiet doPost_def)
  have c: "doPostTry (raisesOnly s e) clk (Parsed data) st = (Failure e, st)"
    if "s \<in> {GetActiveSheet, GetLastRow39}"
    using that by (auto simp add: doPostTry_def headerTry_def onRaise_def)
  have d: "doPostTry (raisesOnly AppendHeaderRow e) clk (Parsed data) st =
     (if sheet st = [] then (Failure e, st) else doPost clk (Parsed data) st)"
    by (simp add: doPostTry_def doPost_def headerTry_def saveRowTry_def saveRow_def onRaise_def
        ensureHeader_def getLastRow_def Let_def split: option.splits)
  have e': "doPostTry (raisesOnly FormatHeaderRow e) clk (Parsed data) st =
     (if sheet st = [] then (Failure e, ensureHeader st) else doPost clk (Parsed data) st)"
    by (simp add: doPostTry_def doPost_def headerTry_def saveRowTry_def saveRow_def onRaise_def
        ensureHeader_def getLastRow_def Let_def split: option.splits)
  have f: "doPostTry (raisesOnly FindDuplicateCall e) clk (Parsed data) st =
     (if force data then doPost clk (Parsed data) st else (Failure e, ensureHeader st))"
    by (simp add: doPostTry_def doPost_def headerTry_def saveRowTry_def saveRow_def onRaise_def
        ensureHeader_def getLastRow_def Let_def split: option.splits)
  have g: "doPostTry (raisesOnly s e) clk (Parsed data) st =
        (if \<not> force data \<and> findDuplicate (sheet st) data \<noteq> None
         then doPost clk (Parsed data) st
         else (Failure e,
               if force data then ensureHeader st
               else writeDebugLog (debugNow clk) data None ''NO DUPLICATE'' (ensureHeader st)))"
    if "s \<in> {BuildRow, GetLastRow109, SetValues}"
    using that findDuplicate_ensureHeader[of st data]
    by (auto simp add: doPostTry_def doPost_def headerTry_def saveRowTry_def saveRow_def onRaise_def
        ensureHeader_def getLastRow_def Let_def split: option.splits)
  have h: "doPostTry (raisesOnly s e) clk (Parsed data) st =
        (if \<not> force data \<and> findDuplicate (sheet st) data \<noteq> None
         then doPost clk (Parsed data) st
         else (Failure e, snd (doPost clk (Parsed data) st)))"
    if "s \<in> {SetNumberFormat, AutoResizeColumns, GetLastRow122}"
    using that findDuplicate_ensureHeader[of st data]
    by (auto simp add: doPostTry_def doPost_def headerTry_def saveRowTry_def saveRow_def onRaise_def
        ensureHeader_def getLastRow_def Let_def split: option.splits)
  from a b c d e' f g h show ?thesis by blast
qed

section \<open>The duplicate matcher\<close>

text \<open>
  Claim C4. For every sheet and every candidate, as soon as some data row (row \<open>n\<close>, counted
  from 1, with the header as row 1) satisfies the three match predicates,
  \<^verbatim>\<open>findDuplicate\<close> returns a row \<open>m\<close> that matches, that is not below any matching row
  (\<open>m \<le> n\<close>), and above which no data row matches: the first match in storage order, also
  when several rows match.
\<close>

theorem findDuplicate_lowest_index:
  assumes "2 \<le> n" and "n \<le> length sh" and "rowMatches c (sh ! (n - 1))"
  shows "\<exists>m. findDuplicate sh c = Some (m, existingOf (rowDataOf (sh ! (m - 1)))) \<and>
             2 \<le> m \<and> m \<le> n \<and> rowMatches c (sh ! (m - 1)) \<and>
             (\<forall>j. 2 \<le> j \<and> j < m \<longrightarrow> \<not> rowMatches c (sh ! (j - 1)))"
proof -
  obtain h rs where sh: "sh = h # rs" using assms by (cases sh) auto
  have kn: "n - 2 < length rs" using assms sh by auto
  have nth: "sh ! (j - 1) = rs ! (j - 2)" if "2 \<le> j" for j
  proof -
    from that obtain i where "j = Suc (Suc i)" by (metis add_2_eq_Suc le_Suc_ex)
    then show ?thesis using sh by simp
  qed
  have "rowMatches c (rs ! (n - 2))" using assms nth by simp
  from ex_least_match[OF kn this] obtain k where k: "k \<le> n - 2" "rowMatches c (rs ! k)"
    "\<forall>j < k. \<not> rowMatches c (rs ! j)" by blast
  have kl: "k < length rs" using k(1) kn by simp
  have "findDuplicate sh c = Some (0 + k + 2, existingOf (rowDataOf (rs ! k)))"
    unfolding findDuplicate_tl using scanRows_first[OF kl k(2) k(3)] sh by simp
  moreover have "sh ! (k + 2 - 1) = rs ! k" using nth[of "k + 2"] by simp
  moreover have "\<forall>j. 2 \<le> j \<and> j < k + 2 \<longrightarrow> \<not> rowMatches c (sh ! (j - 1))"
  proof (intro allI impI)
    fix j assume j: "2 \<le> j \<and> j < k + 2"
    then have "j - 2 < k" by auto
    with k(3) have "\<not> rowMatches c (rs ! (j - 2))" by blast
    with j nth show "\<not> rowMatches c (sh ! (j - 1))" by simp
  qed
  ultimately show ?thesis using k assms(1)
    by (intro exI[of _ "k + 2"]) auto
qed

text \<open>
  C4 at a concrete input: after three forced submissions of the same receipt, rows 2, 3 and 4
  all match the candidate, the scan reports row 2, and so does the response to a fourth
  submission without the force flag.
\<close>

theorem findDuplicate_lowest_index_witness:
  "(2::nat) \<le> 4 \<and> 4 \<le> length (sheet afterThreeForced) \<and>
   rowMatches acmeCandidate (sheet afterThreeForced ! (4 - 1)) \<and>
   rowMatches acmeCandidate (sheet afterThreeForced ! (3 - 1)) \<and>
   findDuplicate (sheet afterThreeForced) acmeCandidate =
     Some (2, existingOf (rowDataOf (sheet afterThreeForced ! (2 - 1)))) \<and>
   fst (doPost exClock (Parsed acmeCandidate) afterThreeForced) =
     Duplicate 2 \<lparr> exMerchant = ''  acme '', exDate = ''2024-01-01'', exTotal = ''10.00'' \<rparr>
       ''Duplicate found:   acme  on 2024-01-01 for undefined 10.00''"
proof -
  have e: "fst (doPost exClock (Parsed acmeCandidate) afterThreeForced) =
     Duplicate 2 \<lparr> exMerchant = ''  acme '', exDate = ''2024-01-01'', exTotal = ''10.00'' \<rparr>
       ''Duplicate found:   acme  on 2024-01-01 for undefined 10.00''" by code_simp
  have h1: "(2::nat) \<le> 4" by simp
  have h2: "4 \<le> length (sheet afterThreeForced)" by code_simp
  have h3: "rowMatches acmeCandidate (sheet afterThreeForced ! (4 - 1))" by code_simp
  have m3: "rowMatches acmeCandidate (sheet afterThreeForced ! (3 - 1))" by code_simp
  have m2: "rowMatches acmeCandidate (sheet afterThreeForced ! (2 - 1))" by code_simp
  from findDuplicate_lowest_index[OF h1 h2 h3] obtain m where
    f: "findDuplicate (sheet afterThreeForced) acmeCandidate =
          Some (m, existingOf (rowDataOf (sheet afterThreeForced ! (m - 1))))"
    and m: "2 \<le> m"
    and l: "\<forall>j. 2 \<le> j \<and> j < m \<longrightarrow> \<not> rowMatches acmeCandidate (sheet afterThreeForced ! (j - 1))"
    by blast
  have "\<not> 2 < m" using l m2 by auto
  with m have "m = 2" by simp
  with f h1 h2 h3 m3 e show ?thesis by simp
qed

text \<open>
  Claim C5. The merchant predicate ignores letter case and leading and trailing white space,
  and the date and total predicates ignore leading and trailing white space, on the stored
  side (the values \<^verbatim>\<open>rowData.merchant\<close>, \<^verbatim>\<open>rowData.rawDate\<close>, \<^verbatim>\<open>rowData.rawTotal\<close>) and on the
  candidate side. In particular the candidate with merchant \<open>Acme\<close>, date \<open>2024-01-01\<close> and
  total \<open>10.00\<close> is reported as a duplicate of the stored row with merchant
  \<open>  acme \<close> and the same date and total.
\<close>

theorem match_ignores_case_and_padding:
  assumes "list_all isWhite p" and "list_all isWhite q" and "toLowerCase x = toLowerCase y"
  shows "merchantMatch (rd\<lparr> merchant := p @ x @ q \<rparr>) c = merchantMatch (rd\<lparr> merchant := y \<rparr>) c \<and>
         merchantMatch rd (c\<lparr> merchantName := Some (p @ x @ q) \<rparr>) =
           merchantMatch rd (c\<lparr> merchantName := Some y \<rparr>) \<and>
         dateMatch (rd\<lparr> rawDate := p @ s @ q \<rparr>) c = dateMatch (rd\<lparr> rawDate := s \<rparr>) c \<and>
         dateMatch rd (c\<lparr> date := Some (p @ s @ q) \<rparr>) = dateMatch rd (c\<lparr> date := Some s \<rparr>) \<and>
         totalMatch (rd\<lparr> rawTotal := p @ s @ q \<rparr>) c = totalMatch (rd\<lparr> rawTotal := s \<rparr>) c \<and>
         totalMatch rd (c\<lparr> total := Some (p @ s @ q) \<rparr>) = totalMatch rd (c\<lparr> total := Some s \<rparr>) \<and>
         fst (doPost exClock (Parsed acmeCandidate) afterAcme) =
           Duplicate 2 \<lparr> exMerchant = ''  acme '', exDate = ''2024-01-01'', exTotal = ''10.00'' \<rparr>
             ''Duplicate found:   acme  on 2024-01-01 for undefined 10.00''"
proof -
  have m: "trim (toLowerCase (p @ x @ q)) = trim (toLowerCase y)"
    using assms by (simp add: trim_lower_pad)
  have t: "trim (p @ s @ q) = trim s"
    using assms by (simp add: trim_pad)
  have e: "fst (doPost exClock (Parsed acmeCandidate) afterAcme) =
           Duplicate 2 \<lparr> exMerchant = ''  acme '', exDate = ''2024-01-01'', exTotal = ''10.00'' \<rparr>
             ''Duplicate found:   acme  on 2024-01-01 for undefined 10.00''"
    by code_simp
  show ?thesis
    using m t e by (simp add: merchantMatch_def dateMatch_def totalMatch_def)
qed

text \<open>
  C5 at a concrete input: two spaces before and one space after, and \<open>acme\<close> against
  \<open>Acme\<close>.
\<close>

theorem match_ignores_case_and_padding_witness:
  "list_all isWhite ''  '' \<and> list_all isWhite '' '' \<and> toLowerCase ''acme'' = toLowerCase ''Acme'' \<and>
   merchantMatch \<lparr> merchant = ''  '' @ ''acme'' @ '' '', rawDate = ''2024-01-01'', rawTotal = ''10.00'' \<rparr>
     acmeCandidate \<and>
   dateMatch \<lparr> merchant = ''Acme'', rawDate = ''  '' @ ''2024-01-01'' @ '' '', rawTotal = ''10.00'' \<rparr>
     acmeCandidate \<and>
   totalMatch \<lparr> merchant = ''Acme'', rawDate = ''2024-01-01'', rawTotal = ''10.00'' \<rparr>
     (acmeCandidate\<lparr> total := Some (''  '' @ ''10.00'' @ '' '') \<rparr>)"
proof -
  have h1: "list_all isWhite ''  ''" by code_simp
  have h2: "list_all isWhite '' ''" by code_simp
  have h3: "toLowerCase ''acme'' = toLowerCase ''Acme''" by code_simp
  let ?rd = "\<lparr> merchant = ''Acme'', rawDate = ''2024-01-01'', rawTotal = ''10.00'' \<rparr>"
  have m: "merchantMatch (?rd\<lparr> merchant := ''Acme'' \<rparr>) acmeCandidate" by code_simp
  have t: "totalMatch ?rd (acmeCandidate\<lparr> total := Some ''10.00'' \<rparr>)" by code_simp
  have d: "dateMatch (?rd\<lparr> rawDate := ''2024-01-01'' \<rparr>) acmeCandidate" by code_simp
  from match_ignores_case_and_padding[OF h1 h2 h3, of ?rd acmeCandidate "''2024-01-01''"]
    match_ignores_case_and_padding[OF h1 h2 h3, of ?rd acmeCandidate "''10.00''"]
    m t d h1 h2 h3
  show ?thesis by simp
qed

text \<open>
  Claim C6. A Duplicate response names a data row of the sheet on which the merchant, the date
  and the total predicate all hold. In particular, once the receipt with total \<open>10.00\<close> is
  stored, the same receipt is reported as a duplicate of row 2, and the receipt that differs
  only in its total, \<open>10.01\<close>, is accepted as row 3.
\<close>

theorem duplicate_needs_all_three:
  assumes "fst (doPost clk (Parsed data) st) = Duplicate n ex msg"
  shows "2 \<le> n \<and> n \<le> length (sheet st) \<and>
         merchantMatch (rowDataOf (sheet st ! (n - 1))) data \<and>
         dateMatch (rowDataOf (sheet st ! (n - 1))) data \<and>
         totalMatch (rowDataOf (sheet st ! (n - 1))) data \<and>
         fst (doPost exClock (Parsed acmeStored) afterAcme) =
           Duplicate 2 \<lparr> exMerchant = ''  acme '', exDate = ''2024-01-01'', exTotal = ''10.00'' \<rparr>
             ''Duplicate found:   acme  on 2024-01-01 for undefined 10.00'' \<and>
         fst (doPost exClock (Parsed acmeOtherTotal) afterAcme) =
           Accepted ''Receipt saved successfully'' 3"
proof -
  from assms obtain d where "Parsed data = Parsed d" "\<not> force d"
    "findDuplicate (sheet st) d = Some (n, ex)"
    by (rule doPost_Duplicate_cases)
  then have "scanRows data (tl (sheet st)) 0 = Some (n, ex)"
    by (simp add: findDuplicate_tl)
  from scanRows_Some[OF this] obtain k where k: "k < length (tl (sheet st))" "n = 0 + k + 2"
    "rowMatches data (tl (sheet st) ! k)" by blast
  have "tl (sheet st) ! k = sheet st ! (n - 1)"
    using k(1,2) by (cases "sheet st") auto
  with k have "rowMatches data (sheet st ! (n - 1))" "2 \<le> n" "n \<le> length (sheet st)"
    by auto
  moreover have "fst (doPost exClock (Parsed acmeStored) afterAcme) =
           Duplicate 2 \<lparr> exMerchant = ''  acme '', exDate = ''2024-01-01'', exTotal = ''10.00'' \<rparr>
             ''Duplicate found:   acme  on 2024-01-01 for undefined 10.00''"
    by code_simp
  moreover have "fst (doPost exClock (Parsed acmeOtherTotal) afterAcme) =
           Accepted ''Receipt saved successfully'' 3"
    by code_simp
  ultimately show ?thesis by (simp add: rowMatches_def)
qed

text \<open>C6 at a concrete input: the duplicate reported for the \<open>Acme\<close> candidate is row 2.\<close>

theorem duplicate_needs_all_three_witness:
  "fst (doPost exClock (Parsed acmeCandidate) afterAcme) =
     Duplicate 2 \<lparr> exMerchant = ''  acme '', exDate = ''2024-01-01'', exTotal = ''10.00'' \<rparr>
       ''Duplicate found:   acme  on 2024-01-01 for undefined 10.00'' \<and>
   merchantMatch (rowDataOf (sheet afterAcme ! (2 - 1))) acmeCandidate \<and>
   dateMatch (rowDataOf (sheet afterAcme ! (2 - 1))) acmeCandidate \<and>
   totalMatch (rowDataOf (sheet afterAcme ! (2 - 1))) acmeCandidate"
proof -
  have h: "fst (doPost exClock (Parsed acmeCandidate) afterAcme) =
     Duplicate 2 \<lparr> exMerchant = ''  acme '', exDate = ''2024-01-01'', exTotal = ''10.00'' \<rparr>
       ''Duplicate found:   acme  on 2024-01-01 for undefined 10.00''"
    by code_simp
  from duplicate_needs_all_three[OF h] h show ?thesis by simp
qed

text \<open>
  Claim C10. The defaults on write differ from the defaults on comparison. When the merchant
  name is absent (or empty) the row stores \<open>Unknown\<close>, the matcher compares against the empty
  string, and the merchant predicate between that row and the same candidate is false. When
  the total is absent (or empty) the row stores Total \<open>0.00\<close> and an empty Raw Total, the
  matcher falls back to the Total cell \<open>0.00\<close>, and the total predicate is false. So in
  either case the row a candidate produced (the row \<^verbatim>\<open>doPost\<close> writes at the index it
  reports) does not match that same candidate.
\<close>

theorem write_and_compare_defaults_differ:
  "(merchantName data \<in> {None, Some []} \<longrightarrow>
      cMerchant (newRowData now data) = ''Unknown'' \<and>
      orElse (merchantName data) [] = [] \<and>
      \<not> merchantMatch (rowDataOf (newRowData now data)) data) \<and>
   (total data \<in> {None, Some []} \<longrightarrow>
      cTotal (newRowData now data) = ''0.00'' \<and>
      cRawTotal (newRowData now data) = [] \<and>
      rawTotal (rowDataOf (newRowData now data)) = ''0.00'' \<and>
      \<not> totalMatch (rowDataOf (newRowData now data)) data) \<and>
   (merchantName data \<in> {None, Some []} \<or> total data \<in> {None, Some []} \<longrightarrow>
      \<not> rowMatches data (newRowData now data)) \<and>
   (fst (doPost clk (Parsed data) st) = Accepted msg n \<longrightarrow>
      sheet (snd (doPost clk (Parsed data) st)) ! (n - 1) = newRowData (rowNow clk) data)"
proof -
  have u: "trim (toLowerCase ''Unknown'') \<noteq> trim (toLowerCase [])" by code_simp
  have z: "trim ''0.00'' \<noteq> trim []" by code_simp
  have "(merchantName data \<in> {None, Some []} \<longrightarrow>
      cMerchant (newRowData now data) = ''Unknown'' \<and>
      orElse (merchantName data) [] = [] \<and>
      \<not> merchantMatch (rowDataOf (newRowData now data)) data) \<and>
   (total data \<in> {None, Some []} \<longrightarrow>
      cTotal (newRowData now data) = ''0.00'' \<and>
      cRawTotal (newRowData now data) = [] \<and>
      rawTotal (rowDataOf (newRowData now data)) = ''0.00'' \<and>
      \<not> totalMatch (rowDataOf (newRowData now data)) data) \<and>
   (merchantName data \<in> {None, Some []} \<or> total data \<in> {None, Some []} \<longrightarrow>
      \<not> rowMatches data (newRowData now data))"
    using u z
    by (auto simp add: rowMatches_def merchantMatch_def totalMatch_def rowDataOf_def
        newRowData_def orElse_def cellOr_def)
  then show ?thesis using doPost_Accepted_row[of clk data st msg n] by blast
qed

text \<open>C10 at concrete inputs: a receipt without merchant name and one without total.\<close>

theorem write_and_compare_defaults_differ_witness:
  "merchantName noMerchant \<in> {None, Some []} \<and>
   cMerchant (newRowData ''t'' noMerchant) = ''Unknown'' \<and>
   \<not> merchantMatch (rowDataOf (newRowData ''t'' noMerchant)) noMerchant \<and>
   \<not> rowMatches noMerchant (newRowData ''t'' noMerchant) \<and>
   total noTotal \<in> {None, Some []} \<and>
   cTotal (newRowData ''t'' noTotal) = ''0.00'' \<and>
   cRawTotal (newRowData ''t'' noTotal) = [] \<and>
   \<not> totalMatch (rowDataOf (newRowData ''t'' noTotal)) noTotal \<and>
   \<not> rowMatches noTotal (newRowData ''t'' noTotal) \<and>
   fst (doPost exClock (Parsed noTotal) emptyStore) = Accepted ''Receipt saved successfully'' 2 \<and>
   sheet (snd (doPost exClock (Parsed noTotal) emptyStore)) ! (2 - 1) =
     newRowData (rowNow exClock) noTotal"
proof -
  have h1: "merchantName noMerchant \<in> {None, Some []}" by code_simp
  have h2: "total noTotal \<in> {None, Some []}" by code_simp
  have h3: "fst (doPost exClock (Parsed noTotal) emptyStore) =
      Accepted ''Receipt saved successfully'' 2" by code_simp
  from write_and_compare_defaults_differ[of noMerchant "''t''"]
    write_and_compare_defaults_differ[of noTotal "''t''" exClock emptyStore
      "''Receipt saved successfully''" 2] h1 h2 h3
  show ?thesis by blast
qed

section \<open>The ledger writer\<close>

text \<open>
  Claim C1. For every receipt with the force flag unset, two submissions in strict sequence
  are to give Accepted and then a Duplicate that names the row of the first. The script
  misses this for a receipt without merchant name and for one without total: each is
  accepted twice, as rows 2 and 3. The comparisons of lines 161 and 163 guard both sides with
  \<^verbatim>\<open>|| ''\<close>, and line 105 writes \<^verbatim>\<open>data.total || ''\<close> as the raw total kept for duplicate
  detection; but line 97 stores \<open>Unknown\<close> for an absent merchant name, and the fallback
  of line 157 replaces the empty raw total by the Total cell \<open>0.00\<close>. The date has the same
  guards and no other default, and there the script does what the claim says: the receipt
  without date is reported as a duplicate of row 2.
\<close>

theorem resubmit_absent_field_accepted_twice:
  "\<not> force noMerchant \<and>
   fst (doPost exClock (Parsed noMerchant) emptyStore) = Accepted ''Receipt saved successfully'' 2 \<and>
   fst (doPost exClock (Parsed noMerchant) (snd (doPost exClock (Parsed noMerchant) emptyStore))) =
     Accepted ''Receipt saved successfully'' 3 \<and>
   \<not> force noTotal \<and>
   fst (doPost exClock (Parsed noTotal) emptyStore) = Accepted ''Receipt saved successfully'' 2 \<and>
   fst (doPost exClock (Parsed noTotal) (snd (doPost exClock (Parsed noTotal) emptyStore))) =
     Accepted ''Receipt saved successfully'' 3 \<and>
   \<not> force noDate \<and>
   fst (doPost exClock (Parsed noDate) emptyStore) = Accepted ''Receipt saved successfully'' 2 \<and>
   fst (doPost exClock (Parsed noDate) (snd (doPost exClock (Parsed noDate) emptyStore))) =
     Duplicate 2 \<lparr> exMerchant = ''Acme'', exDate = [], exTotal = ''10.00'' \<rparr>
       ''Duplicate found: Acme on  for undefined 10.00''"
  by code_simp

text \<open>
  Where the merchant name and the total are present and not empty, the script does report
  the second submission: from every store that holds no matching row, the first call is
  Accepted and appends the row below the existing ones, and the second call, with no write
  in between, is a Duplicate whose row index is the index of that row.
\<close>

lemma resubmit_reports_first_row:
  assumes "\<not> force data"
    and "merchantName data = Some m" and "m \<noteq> []"
    and "total data = Some t" and "t \<noteq> []"
    and "findDuplicate (sheet st) data = None"
  shows "\<exists>n st1 st2.
           doPost clk (Parsed data) st = (Accepted ''Receipt saved successfully'' n, st1) \<and>
           sheet st1 = sheet (ensureHeader st) @ [newRowData (rowNow clk) data] \<and>
           n = length (sheet st1) \<and>
           doPost clk' (Parsed data) st1 =
             (Duplicate n (existingOf (rowDataOf (newRowData (rowNow clk) data)))
                (duplicateMessage (existingOf (rowDataOf (newRowData (rowNow clk) data)))), st2) \<and>
           sheet st2 = sheet st1"
proof -
  let ?h = "ensureHeader st"
  let ?row = "newRowData (rowNow clk) data"
  let ?d = "writeDebugLog (debugNow clk) data None ''NO DUPLICATE'' ?h"
  let ?st1 = "?d\<lparr> sheet := sheet ?d @ [?row] \<rparr>"
  let ?n = "Suc (length (sheet ?h))"
  let ?ex = "existingOf (rowDataOf ?row)"
  let ?st2 = "writeDebugLog (debugNow clk') data (Some (?n, ?ex)) ''DUPLICATE FOUND'' ?st1"
  have 1: "doPost clk (Parsed data) st = (Accepted ''Receipt saved successfully'' ?n, ?st1)"
    using assms(1,6) by (simp add: doPost_no_match saveRow_eq)
  have sh1: "sheet ?st1 = sheet ?h @ [?row]" by simp
  have m: "rowMatches data ?row" using assms(2-5) by (rule rowMatches_newRowData)
  have "scanRows data (tl (sheet ?h)) 0 = None"
    using assms(6) by (simp add: findDuplicate_ensureHeader flip: findDuplicate_tl)
  then have "scanRows data (tl (sheet ?h) @ [?row]) 0 =
             Some (0 + length (tl (sheet ?h)) + 2, ?ex)"
    using m by (rule scanRows_append_new)
  moreover have "tl (sheet ?h @ [?row]) = tl (sheet ?h) @ [?row]"
    using sheet_ensureHeader_nonempty[of st] by simp
  moreover have "0 + length (tl (sheet ?h)) + 2 = ?n"
    using sheet_ensureHeader_nonempty[of st] by (cases "sheet ?h") auto
  ultimately have fd: "findDuplicate (sheet ?st1) data = Some (?n, ?ex)"
    by (simp add: findDuplicate_tl)
  have 2: "doPost clk' (Parsed data) ?st1 = (Duplicate ?n ?ex (duplicateMessage ?ex), ?st2)"
    using assms(1) fd by (rule doPost_match)
  have 3: "?n = length (sheet ?st1)" by simp
  have 4: "sheet ?st2 = sheet ?st1" by simp
  from 1 sh1 3 2 4 show ?thesis by blast
qed

text \<open>
  An instance: the receipt of merchant \<open>  acme \<close> submitted twice to the empty spreadsheet
  is accepted as row 2 and then reported as a duplicate of row 2.
\<close>

lemma resubmit_reports_first_row_example:
  "\<not> force acmeStored \<and> merchantName acmeStored = Some ''  acme '' \<and> ''  acme '' \<noteq> [] \<and>
   total acmeStored = Some ''10.00'' \<and> ''10.00'' \<noteq> [] \<and>
   findDuplicate (sheet emptyStore) acmeStored = None \<and>
   fst (doPost exClock (Parsed acmeStored) emptyStore) = Accepted ''Receipt saved successfully'' 2 \<and>
   fst (doPost exClock (Parsed acmeStored) (snd (doPost exClock (Parsed acmeStored) emptyStore))) =
     Duplicate 2 (existingOf (rowDataOf (newRowData (rowNow exClock) acmeStored)))
       (duplicateMessage (existingOf (rowDataOf (newRowData (rowNow exClock) acmeStored))))"
proof -
  have h1: "\<not> force acmeStored" by code_simp
  have h2: "merchantName acmeStored = Some ''  acme ''" by code_simp
  have h3: "''  acme '' \<noteq> []" by simp
  have h4: "total acmeStored = Some ''10.00''" by code_simp
  have h5: "''10.00'' \<noteq> []" by simp
  have h6: "findDuplicate (sheet emptyStore) acmeStored = None" by code_simp
  let ?ex = "existingOf (rowDataOf (newRowData (rowNow exClock) acmeStored))"
  from resubmit_reports_first_row[OF h1 h2 h3 h4 h5 h6, of exClock exClock]
  obtain n st1 st2 where
    a: "doPost exClock (Parsed acmeStored) emptyStore = (Accepted ''Receipt saved successfully'' n, st1)"
    and s: "sheet st1 = sheet (ensureHeader emptyStore) @ [newRowData (rowNow exClock) acmeStored]"
    and n: "n = length (sheet st1)"
    and d: "doPost exClock (Parsed acmeStored) st1 = (Duplicate n ?ex (duplicateMessage ?ex), st2)"
    by blast
  have "length (sheet (ensureHeader emptyStore)) = 1" by code_simp
  with s n have n2: "n = 2" by simp
  from a have st1: "snd (doPost exClock (Parsed acmeStored) emptyStore) = st1" by simp
  from a n2 have "fst (doPost exClock (Parsed acmeStored) emptyStore) =
      Accepted ''Receipt saved successfully'' 2" by simp
  moreover from d n2 st1 have "fst (doPost exClock (Parsed acmeStored)
      (snd (doPost exClock (Parsed acmeStored) emptyStore))) =
      Duplicate 2 ?ex (duplicateMessage ?ex)" by simp
  ultimately show ?thesis using h1 h2 h4 h6 by simp
qed

text \<open>
  Claim C9. For every receipt with the force flag set, every store and every two clock
  readings: both submissions are Accepted, the second row index is greater than the first,
  and the sheet gains exactly the two new rows, each at the index its response reports.
\<close>

theorem force_twice_accepted:
  assumes "force data"
  shows "\<exists>n1 n2 st1 st2.
           doPost clk (Parsed data) st = (Accepted ''Receipt saved successfully'' n1, st1) \<and>
           doPost clk' (Parsed data) st1 = (Accepted ''Receipt saved successfully'' n2, st2) \<and>
           n1 < n2 \<and>
           sheet st2 = sheet (ensureHeader st) @
                         [newRowData (rowNow clk) data, newRowData (rowNow clk') data] \<and>
           sheet st2 ! (n1 - 1) = newRowData (rowNow clk) data \<and>
           sheet st2 ! (n2 - 1) = newRowData (rowNow clk') data"
proof -
  let ?h = "ensureHeader st"
  let ?st1 = "?h\<lparr> sheet := sheet ?h @ [newRowData (rowNow clk) data] \<rparr>"
  let ?st2 = "?st1\<lparr> sheet := sheet ?st1 @ [newRowData (rowNow clk') data] \<rparr>"
  have 1: "doPost clk (Parsed data) st =
           (Accepted ''Receipt saved successfully'' (Suc (length (sheet ?h))), ?st1)"
    using assms by (simp add: doPost_forced saveRow_eq)
  have ne: "sheet ?st1 \<noteq> []" by simp
  have 2: "doPost clk' (Parsed data) ?st1 =
           (Accepted ''Receipt saved successfully'' (Suc (length (sheet ?st1))), ?st2)"
    using assms by (simp only: doPost_forced saveRow_eq ensureHeader_nonempty[OF ne])
  have 3: "sheet ?st2 ! (Suc (length (sheet ?h)) - 1) = newRowData (rowNow clk) data"
    by (simp add: nth_append)
  have 4: "sheet ?st2 ! (Suc (length (sheet ?st1)) - 1) = newRowData (rowNow clk') data"
    by (simp add: nth_append)
  have 5: "sheet ?st2 = sheet ?h @ [newRowData (rowNow clk) data, newRowData (rowNow clk') data]"
    by simp
  have 6: "Suc (length (sheet ?h)) < Suc (length (sheet ?st1))" by simp
  from 1 2 3 4 5 6 show ?thesis by blast
qed

text \<open>
  C9 at a concrete input: two forced submissions to the empty spreadsheet are accepted as
  rows 2 and 3, and the sheet then has three rows.
\<close>

theorem force_twice_accepted_witness:
  "force acmeForced \<and>
   fst (doPost exClock (Parsed acmeForced) emptyStore) = Accepted ''Receipt saved successfully'' 2 \<and>
   fst (doPost exClock (Parsed acmeForced) (snd (doPost exClock (Parsed acmeForced) emptyStore))) =
     Accepted ''Receipt saved successfully'' 3 \<and>
   length (sheet (snd (doPost exClock (Parsed acmeForced)
     (snd (doPost exClock (Parsed acmeForced) emptyStore))))) = 3"
proof -
  have h: "force acmeForced" by code_simp
  from force_twice_accepted[OF h, of exClock emptyStore exClock] obtain n1 n2 st1 st2 where
    a: "doPost exClock (Parsed acmeForced) emptyStore = (Accepted ''Receipt saved successfully'' n1, st1)"
    and b: "doPost exClock (Parsed acmeForced) st1 = (Accepted ''Receipt saved successfully'' n2, st2)"
    and s: "sheet st2 = sheet (ensureHeader emptyStore) @
              [newRowData (rowNow exClock) acmeForced, newRowData (rowNow exClock) acmeForced]"
    by blast
  have e1: "fst (doPost exClock (Parsed acmeForced) emptyStore) =
      Accepted ''Receipt saved successfully'' 2" by code_simp
  have e2: "fst (doPost exClock (Parsed acmeForced)
      (snd (doPost exClock (Parsed acmeForced) emptyStore))) =
      Accepted ''Receipt saved successfully'' 3" by code_simp
  have l: "length (sheet (ensureHeader emptyStore)) = 1" by code_simp
  from a b have "snd (doPost exClock (Parsed acmeForced)
     (snd (doPost exClock (Parsed acmeForced) emptyStore))) = st2" by simp
  with s l have "length (sheet (snd (doPost exClock (Parsed acmeForced)
     (snd (doPost exClock (Parsed acmeForced) emptyStore))))) = 3" by simp
  with h e1 e2 show ?thesis by simp
qed




text \<open>
  Claim C2 does not hold as stated: the handler has no rollback, so a Failure is answered
  with the store as the statements before the exception left it. Three requests to the empty
  spreadsheet: the body \<^verbatim>\<open>null\<close> (reading \<^verbatim>\<open>data.force\<close> raises) leaves the header row; a
  receipt whose \<^verbatim>\<open>items\<close> is a string (\<^verbatim>\<open>data.items.map\<close> raises) leaves the header row and
  a Debug sheet of two rows; and a storage exception in \<^verbatim>\<open>autoResizeColumns\<close> leaves the
  header row and the new data row.
\<close>

theorem failure_without_rollback_counterexample:
  "sheet emptyStore = [] \<and> debugSheet emptyStore = None \<and>
   fst (doPost exClock ParsedNull emptyStore) = Failure nullPayloadError \<and>
   sheet (snd (doPost exClock ParsedNull emptyStore)) = [headerRow] \<and>
   fst (doPostTry (raisesOnly BuildRow ''TypeError: data.items.map is not a function'')
          exClock (Parsed acmeStored) emptyStore) =
     Failure ''TypeError: data.items.map is not a function'' \<and>
   sheet (snd (doPostTry (raisesOnly BuildRow ''TypeError: data.items.map is not a function'')
          exClock (Parsed acmeStored) emptyStore)) = [headerRow] \<and>
   map_option length (debugSheet (snd (doPostTry
          (raisesOnly BuildRow ''TypeError: data.items.map is not a function'')
          exClock (Parsed acmeStored) emptyStore))) = Some 2 \<and>
   fst (doPostTry (raisesOnly AutoResizeColumns ''Exception: Service error: Spreadsheets'')
          exClock (Parsed acmeStored) emptyStore) =
     Failure ''Exception: Service error: Spreadsheets'' \<and>
   sheet (snd (doPostTry (raisesOnly AutoResizeColumns ''Exception: Service error: Spreadsheets'')
          exClock (Parsed acmeStored) emptyStore)) =
     [headerRow, newRowData (rowNow exClock) acmeStored]"
  by code_simp

text \<open>
  Claim C2, amended. Whenever the response is a Failure, an exception raised by
  \<^verbatim>\<open>JSON.parse\<close>, by the read of a field of \<^verbatim>\<open>null\<close>, by a storage call or by the use of a
  field value of the wrong type has been caught, and the response carries its stringified
  form. No existing ledger row is modified or removed. The store is unchanged when the
  payload does not parse; otherwise what was written before the exception stays: the header
  row when the sheet was empty, the Debug line of a duplicate check that found no match, and
  the new data row when the exception is raised by one of the three calls that follow its
  write (lines 113, 116 and 122). The statement that raises fixes the outcome: the last
  eight equations give the response and the store of every run in which one statement
  raises.
\<close>

theorem failure_is_caught_without_rollback:
  assumes "fst (doPostTry rn clk p st) = Failure err"
  shows "(p = Malformed err \<or> p = ParsedNull \<and> err = nullPayloadError \<or>
          (\<exists>s. raisesAt rn s = Some err)) \<and>
         (p = Malformed err \<longrightarrow> snd (doPostTry rn clk p st) = st) \<and>
         (sheet (snd (doPostTry rn clk p st)) = sheet st \<or>
          sheet st = [] \<and> sheet (snd (doPostTry rn clk p st)) = [headerRow] \<or>
          (\<exists>data s. p = Parsed data \<and>
             s \<in> {SetNumberFormat, AutoResizeColumns, GetLastRow122} \<and> raisesAt rn s = Some err \<and>
             sheet (snd (doPostTry rn clk p st)) =
               sheet (ensureHeader st) @ [newRowData (rowNow clk) data])) \<and>
         (debugSheet (snd (doPostTry rn clk p st)) = debugSheet st \<or>
          (\<exists>data. p = Parsed data \<and> \<not> force data \<and> findDuplicate (sheet st) data = None \<and>
             debugSheet (snd (doPostTry rn clk p st)) =
               debugSheet (writeDebugLogTry rn (debugNow clk) data None ''NO DUPLICATE''
                 (ensureHeader st)))) \<and>
         doPostTry rn clk (Malformed e) st = (Failure e, st) \<and>
         doPostTry quiet clk ParsedNull st = (Failure nullPayloadError, ensureHeader st) \<and>
         (s \<in> {GetActiveSheet, GetLastRow39} \<longrightarrow>
            doPostTry (raisesOnly s e) clk (Parsed d) st = (Failure e, st)) \<and>
         doPostTry (raisesOnly AppendHeaderRow e) clk (Parsed d) st =
           (if sheet st = [] then (Failure e, st) else doPost clk (Parsed d) st) \<and>
         doPostTry (raisesOnly FormatHeaderRow e) clk (Parsed d) st =
           (if sheet st = [] then (Failure e, ensureHeader st) else doPost clk (Parsed d) st) \<and>
         doPostTry (raisesOnly FindDuplicateCall e) clk (Parsed d) st =
           (if force d then doPost clk (Parsed d) st else (Failure e, ensureHeader st)) \<and>
         (s \<in> {BuildRow, GetLastRow109, SetValues} \<longrightarrow>
            doPostTry (raisesOnly s e) clk (Parsed d) st =
              (if \<not> force d \<and> findDuplicate (sheet st) d \<noteq> None
               then doPost clk (Parsed d) st
               else (Failure e,
                     if force d then ensureHeader st
                     else writeDebugLog (debugNow clk) d None ''NO DUPLICATE'' (ensureHeader st)))) \<and>
         (s \<in> {SetNumberFormat, AutoResizeColumns, GetLastRow122} \<longrightarrow>
            doPostTry (raisesOnly s e) clk (Parsed d) st =
              (if \<not> force d \<and> findDuplicate (sheet st) d \<noteq> None
               then doPost clk (Parsed d) st
               else (Failure e, snd (doPost clk (Parsed d) st))))"
proof -
  let ?r = "doPostTry rn clk p st"
  let ?h = "ensureHeader st"
  let ?main = "(p = Malformed err \<or> p = ParsedNull \<and> err = nullPayloadError \<or>
          (\<exists>s. raisesAt rn s = Some err)) \<and>
         (p = Malformed err \<longrightarrow> snd (doPostTry rn clk p st) = st) \<and>
         (sheet (snd (doPostTry rn clk p st)) = sheet st \<or>
          sheet st = [] \<and> sheet (snd (doPostTry rn clk p st)) = [headerRow] \<or>
          (\<exists>data s. p = Parsed data \<and>
             s \<in> {SetNumberFormat, AutoResizeColumns, GetLastRow122} \<and> raisesAt rn s = Some err \<and>
             sheet (snd (doPostTry rn clk p st)) =
               sheet (ensureHeader st) @ [newRowData (rowNow clk) data])) \<and>
         (debugSheet (snd (doPostTry rn clk p st)) = debugSheet st \<or>
          (\<exists>data. p = Parsed data \<and> \<not> force data \<and> findDuplicate (sheet st) data = None \<and>
             debugSheet (snd (doPostTry rn clk p st)) =
               debugSheet (writeDebugLogTry rn (debugNow clk) data None ''NO DUPLICATE''
                 (ensureHeader st))))"
  have early: ?main
    if "raisesAt rn s = Some e" "?r = (Failure e, st)" "\<forall>x. p \<noteq> Malformed x" for s e
    using that assms by auto
  have header: ?main
    if "raisesAt rn FormatHeaderRow = Some e" "sheet st = []"
      "?r = (Failure e, st\<lparr> sheet := sheet st @ [headerRow] \<rparr>)" "\<forall>x. p \<noteq> Malformed x" for e
    using that assms by auto
  have saved: ?main
    if p: "p = Parsed data" and r: "?r = saveRowTry rn (rowNow clk) data st2"
      and sh: "sheet st2 = sheet ?h"
      and db: "debugSheet st2 = debugSheet st \<or>
               \<not> force data \<and> findDuplicate (sheet st) data = None \<and>
               debugSheet st2 = debugSheet (writeDebugLogTry rn (debugNow clk) data None
                 ''NO DUPLICATE'' ?h)"
    for data st2
  proof -
    from saveRowTry_cases[of rn "rowNow clk" data st2] show ?thesis
    proof (elim disjE exE conjE)
      fix s e
      assume "raisesAt rn s = Some e" "saveRowTry rn (rowNow clk) data st2 = (Failure e, st2)"
      with r assms have e: "err = e" and s: "snd ?r = st2" by simp_all
      have "sheet (snd ?r) = sheet st \<or> sheet st = [] \<and> sheet (snd ?r) = [headerRow]"
        using s sh sheet_ensureHeader_cases[of st] by simp
      moreover have "\<exists>s. raisesAt rn s = Some err" using \<open>raisesAt rn s = Some e\<close> e by blast
      ultimately show ?thesis using p db s by auto
    next
      fix s e
      assume a: "s \<in> {SetNumberFormat, AutoResizeColumns, GetLastRow122}"
        "raisesAt rn s = Some e"
        "saveRowTry rn (rowNow clk) data st2 =
           (Failure e, st2\<lparr> sheet := sheet st2 @ [newRowData (rowNow clk) data] \<rparr>)"
      with r assms have e: "err = e"
        and s: "snd ?r = st2\<lparr> sheet := sheet st2 @ [newRowData (rowNow clk) data] \<rparr>"
        by simp_all
      have 1: "sheet (snd ?r) = sheet ?h @ [newRowData (rowNow clk) data]" using s sh by simp
      have 2: "debugSheet (snd ?r) = debugSheet st2" using s by simp
      have 3: "\<exists>s. raisesAt rn s = Some err" using a(2) e by blast
      have 4: "\<exists>data' s. p = Parsed data' \<and>
             s \<in> {SetNumberFormat, AutoResizeColumns, GetLastRow122} \<and> raisesAt rn s = Some err \<and>
             sheet (snd ?r) = sheet ?h @ [newRowData (rowNow clk) data']"
        using p a(1,2) e 1 by blast
      show ?thesis using p db 2 3 4 by auto
    next
      assume "saveRowTry rn (rowNow clk) data st2 = saveRow (rowNow clk) data st2"
      with r assms show ?thesis by (simp add: saveRow_eq)
    qed
  qed
  have main: ?main
  proof (cases p)
    case (Malformed e)
    with assms show ?thesis by (simp add: doPostTry_def)
  next
    case ParsedNull
    let ?k = "\<lambda>st1. (Failure nullPayloadError, st1)"
    have r: "?r = headerTry rn st ?k" using ParsedNull by (simp add: doPostTry_def)
    from headerTry_cases[of rn st ?k] show ?thesis
    proof (elim disjE exE conjE)
      fix s e assume "raisesAt rn s = Some e" "headerTry rn st ?k = (Failure e, st)"
      with r ParsedNull show ?thesis by (intro early[of s e]) simp_all
    next
      fix e assume "raisesAt rn FormatHeaderRow = Some e" "sheet st = []"
        "headerTry rn st ?k = (Failure e, st\<lparr> sheet := sheet st @ [headerRow] \<rparr>)"
      with r ParsedNull show ?thesis by (intro header[of e]) simp_all
    next
      assume "headerTry rn st ?k = ?k ?h"
      with r assms have "err = nullPayloadError" "snd ?r = ?h" by simp_all
      with ParsedNull sheet_ensureHeader_cases[of st] show ?thesis by auto
    qed
  next
    case (Parsed data)
    let ?k = "\<lambda>st1.
            if \<not> force data then
              onRaise rn FindDuplicateCall st1
                (case findDuplicate (sheet st1) data of
                   Some (n, ex) \<Rightarrow>
                     (Duplicate n ex (duplicateMessage ex),
                      writeDebugLogTry rn (debugNow clk) data (Some (n, ex)) ''DUPLICATE FOUND'' st1)
                 | None \<Rightarrow>
                     saveRowTry rn (rowNow clk) data
                       (writeDebugLogTry rn (debugNow clk) data None ''NO DUPLICATE'' st1))
            else saveRowTry rn (rowNow clk) data st1"
    have r: "?r = headerTry rn st ?k" using Parsed by (simp add: doPostTry_def)
    from headerTry_cases[of rn st ?k] show ?thesis
    proof (elim disjE exE conjE)
      fix s e assume "raisesAt rn s = Some e" "headerTry rn st ?k = (Failure e, st)"
      with r Parsed show ?thesis by (intro early[of s e]) simp_all
    next
      fix e assume "raisesAt rn FormatHeaderRow = Some e" "sheet st = []"
        "headerTry rn st ?k = (Failure e, st\<lparr> sheet := sheet st @ [headerRow] \<rparr>)"
      with r Parsed show ?thesis by (intro header[of e]) simp_all
    next
      assume "headerTry rn st ?k = ?k ?h"
      with r have k: "?r = ?k ?h" by simp
      show ?thesis
      proof (cases "force data")
        case True
        with k have "?r = saveRowTry rn (rowNow clk) data ?h" by simp
        then show ?thesis using Parsed by (intro saved[of data ?h]) simp_all
      next
        case False
        show ?thesis
        proof (cases "raisesAt rn FindDuplicateCall")
          case (Some e)
          with k False have "?r = (Failure e, ?h)" by (simp add: onRaise_def)
          with assms have "err = e" "snd ?r = ?h" by simp_all
          with Some Parsed sheet_ensureHeader_cases[of st] show ?thesis by auto
        next
          case None
          show ?thesis
          proof (cases "findDuplicate (sheet ?h) data")
            case (Some d)
            with k False None have "\<exists>n ex m. fst ?r = Duplicate n ex m"
              by (cases d) (simp add: onRaise_def)
            with assms show ?thesis by auto
          next
            case fd: None
            let ?st2 = "writeDebugLogTry rn (debugNow clk) data None ''NO DUPLICATE'' ?h"
            from k False None fd have "?r = saveRowTry rn (rowNow clk) data ?st2"
              by (simp add: onRaise_def)
            moreover have "findDuplicate (sheet st) data = None"
              using fd by (simp add: findDuplicate_ensureHeader)
            ultimately show ?thesis using Parsed False
              by (intro saved[of data ?st2]) simp_all
          qed
        qed
      qed
    qed
  qed
  from main doPostTry_single_raise[of rn clk e st s d] show ?thesis by blast
qed


text \<open>
  C2, amended, at concrete inputs: a storage exception in \<^verbatim>\<open>setNumberFormat\<close> on a forced
  submission, after which the new row is in the sheet, and a \<^verbatim>\<open>TypeError\<close> inside
  \<^verbatim>\<open>findDuplicate\<close>, after which the sheet is as it was.
\<close>

theorem failure_is_caught_without_rollback_witness:
  "fst (doPostTry (raisesOnly SetNumberFormat ''Exception: Service error: Spreadsheets'')
          exClock (Parsed acmeForced) afterAcme) =
     Failure ''Exception: Service error: Spreadsheets'' \<and>
   raisesAt (raisesOnly SetNumberFormat ''Exception: Service error: Spreadsheets'') SetNumberFormat =
     Some ''Exception: Service error: Spreadsheets'' \<and>
   sheet (snd (doPostTry (raisesOnly SetNumberFormat ''Exception: Service error: Spreadsheets'')
          exClock (Parsed acmeForced) afterAcme)) =
     sheet afterAcme @ [newRowData (rowNow exClock) acmeForced] \<and>
   debugSheet (snd (doPostTry (raisesOnly SetNumberFormat ''Exception: Service error: Spreadsheets'')
          exClock (Parsed acmeForced) afterAcme)) = debugSheet afterAcme \<and>
   fst (doPostTry (raisesOnly FindDuplicateCall ''TypeError: toLowerCase is not a function'')
          exClock (Parsed acmeStored) afterAcme) =
     Failure ''TypeError: toLowerCase is not a function'' \<and>
   sheet (snd (doPostTry (raisesOnly FindDuplicateCall ''TypeError: toLowerCase is not a function'')
          exClock (Parsed acmeStored) afterAcme)) = sheet afterAcme"
proof -
  let ?e = "''Exception: Service error: Spreadsheets''"
  let ?t = "''TypeError: toLowerCase is not a function''"
  have h1: "fst (doPostTry (raisesOnly SetNumberFormat ?e) exClock (Parsed acmeForced) afterAcme) =
      Failure ?e" by code_simp
  have h2: "fst (doPostTry (raisesOnly FindDuplicateCall ?t) exClock (Parsed acmeStored) afterAcme) =
      Failure ?t" by code_simp
  have r: "raisesAt (raisesOnly SetNumberFormat ?e) SetNumberFormat = Some ?e" by code_simp
  have ne: "sheet afterAcme \<noteq> []" by code_simp
  have f: "force acmeForced" by code_simp
  have s1: "sheet (snd (doPostTry (raisesOnly SetNumberFormat ?e) exClock (Parsed acmeForced) afterAcme))
      \<noteq> sheet afterAcme" by code_simp
  have s2: "length (sheet (snd (doPostTry (raisesOnly FindDuplicateCall ?t) exClock
      (Parsed acmeStored) afterAcme))) = length (sheet afterAcme)" by code_simp
  have nf: "\<not> force acmeStored" by code_simp
  have fd: "findDuplicate (sheet afterAcme) acmeStored \<noteq> None" by code_simp
  note m1 = failure_is_caught_without_rollback[OF h1]
  note m2 = failure_is_caught_without_rollback[OF h2]
  from m1[THEN conjunct2, THEN conjunct2, THEN conjunct1]
    m1[THEN conjunct2, THEN conjunct2, THEN conjunct2, THEN conjunct1] s1 ne f
  have a: "sheet (snd (doPostTry (raisesOnly SetNumberFormat ?e) exClock (Parsed acmeForced) afterAcme)) =
      sheet afterAcme @ [newRowData (rowNow exClock) acmeForced]"
    and b: "debugSheet (snd (doPostTry (raisesOnly SetNumberFormat ?e) exClock (Parsed acmeForced)
      afterAcme)) = debugSheet afterAcme"
    by (auto simp add: ensureHeader_nonempty)
  from m2[THEN conjunct2, THEN conjunct2, THEN conjunct1] s2 ne
  have c: "sheet (snd (doPostTry (raisesOnly FindDuplicateCall ?t) exClock (Parsed acmeStored) afterAcme)) =
      sheet afterAcme"
    by (auto simp add: ensureHeader_nonempty)
  from h1 h2 r a b c show ?thesis by simp
qed

text \<open>
  Claim C8. In every store reached from the empty spreadsheet by requests and migrations, the
  sheet is still empty or its row 1 is the header row and the header row occurs exactly once.
  A request that finds at least one row does not change the number of header rows; a request
  with a parsed payload that finds no row creates the header as row 1, once.
\<close>

theorem header_row_exactly_once:
  assumes "reachable st"
  shows "(sheet st = [] \<or> (sheet st ! 0 = headerRow \<and> count_list (sheet st) headerRow = 1)) \<and>
         (getLastRow (sheet st) \<noteq> 0 \<longrightarrow>
            count_list (sheet (snd (doPost clk p st))) headerRow = count_list (sheet st) headerRow) \<and>
         (getLastRow (sheet st) = 0 \<and> (\<forall>e. p \<noteq> Malformed e) \<longrightarrow>
            sheet (snd (doPost clk p st)) ! 0 = headerRow \<and>
            count_list (sheet (snd (doPost clk p st))) headerRow = 1)"
proof -
  let ?st' = "snd (doPost clk p st)"
  from reachable_header_inv[OF assms]
  have 1: "sheet st = [] \<or> (sheet st ! 0 = headerRow \<and> count_list (sheet st) headerRow = 1)"
    by (auto simp add: count_header_once hd_conv_nth)
  have 2: "count_list (sheet ?st') headerRow = count_list (sheet st) headerRow"
    if "getLastRow (sheet st) \<noteq> 0"
  proof -
    from that have "sheet st \<noteq> []" by (simp add: getLastRow_def)
    then have eh: "ensureHeader st = st" by (rule ensureHeader_nonempty)
    from doPost_sheet_cases[of clk p st] show ?thesis
      unfolding eh by (auto simp add: newRowData_not_header)
  qed
  have 3: "sheet ?st' ! 0 = headerRow \<and> count_list (sheet ?st') headerRow = 1"
    if a: "getLastRow (sheet st) = 0 \<and> (\<forall>e. p \<noteq> Malformed e)"
  proof -
    have r: "reachable ?st'" using assms by (rule reachable.post)
    have "sheet ?st' \<noteq> []"
      using a by (cases p)
        (auto simp add: doPost_def saveRow_eq Let_def sheet_ensureHeader split: option.splits)
    with reachable_header_inv[OF r] show ?thesis
      by (auto simp add: count_header_once hd_conv_nth)
  qed
  from 1 2 3 show ?thesis by blast
qed

text \<open>
  C8 at a concrete input: the store after one accepted receipt is reachable, its row 1 is the
  header, and a further forced submission leaves exactly one header row.
\<close>

theorem header_row_exactly_once_witness:
  "reachable afterAcme \<and> sheet afterAcme ! 0 = headerRow \<and>
   count_list (sheet afterAcme) headerRow = 1 \<and>
   count_list (sheet (snd (doPost exClock (Parsed acmeForced) afterAcme))) headerRow = 1"
proof -
  have r: "reachable afterAcme"
    unfolding afterAcme_def by (rule reachable.post[OF reachable.init])
  have ne: "sheet afterAcme \<noteq> []" by code_simp
  have g: "getLastRow (sheet afterAcme) \<noteq> 0" by code_simp
  from header_row_exactly_once[OF r, of exClock "Parsed acmeForced"] r ne g
  show ?thesis by simp
qed

text \<open>
  Claim C3 does not hold for the migration: for the receipt without total, the appended row
  has an empty Raw Total, and \<^verbatim>\<open>migrateOldRows\<close> then overwrites it with the Total cell
  \<open>0.00\<close>, a default that is not the input text.
\<close>

theorem migration_rewrites_absent_total_counterexample:
  "total noTotal = None \<and>
   fst (doPost exClock (Parsed noTotal) emptyStore) = Accepted ''Receipt saved successfully'' 2 \<and>
   cRawTotal (sheet (snd (doPost exClock (Parsed noTotal) emptyStore)) ! 1) = [] \<and>
   cRawTotal (sheet (migrateOldRows (snd (doPost exClock (Parsed noTotal) emptyStore))) ! 1) = ''0.00''"
  by code_simp

text \<open>
  Claim C3, amended. The row written by a submission holds, in Raw Date and Raw Total, the
  text of the candidate's date and total, and the empty string for an absent (or empty) one:
  an accepted submission writes that row at the index it reports, and every request, also one
  cut short by an exception, leaves the existing rows as they are and adds at most the header
  row and that row. The migration keeps the header row and
  the number of rows and, in every data row, overwrites Raw Date with the Date cell when the
  Date cell is not empty and Raw Total with the Total cell when the Total cell is not empty,
  and changes no other cell. For a row written by a submission, wherever it stands in the
  sheet, Raw Date stays the date text and Raw Total becomes the total text when there is one
  and the default \<open>0.00\<close> otherwise.
\<close>

theorem raw_fields_written_and_migrated:
  "(fst (doPost clk (Parsed data) st) = Accepted msg n \<longrightarrow>
      sheet (snd (doPost clk (Parsed data) st)) ! (n - 1) = newRowData (rowNow clk) data) \<and>
   cRawDate (newRowData now data') = orElse (date data') [] \<and>
   cRawTotal (newRowData now data') = orElse (total data') [] \<and>
   (sheet (snd (doPostTry rn clk p st)) = sheet st \<or>
    sheet (snd (doPostTry rn clk p st)) = sheet st @ [headerRow] \<or>
    (\<exists>d. p = Parsed d \<and>
       sheet (snd (doPostTry rn clk p st)) = sheet st @ [newRowData (rowNow clk) d]) \<or>
    (\<exists>d. p = Parsed d \<and>
       sheet (snd (doPostTry rn clk p st)) = sheet st @ [headerRow, newRowData (rowNow clk) d])) \<and>
   sheet (migrateOldRows st) =
     (case sheet st of
        [] \<Rightarrow> []
      | h # rs \<Rightarrow>
          h # map (\<lambda>r. r\<lparr> cRawDate := cellOr (cDate r) (cRawDate r),
                            cRawTotal := cellOr (cTotal r) (cRawTotal r) \<rparr>) rs) \<and>
   debugSheet (migrateOldRows st) = debugSheet st \<and>
   (1 \<le> i \<and> i < length (sheet st) \<and> sheet st ! i = newRowData now data' \<longrightarrow>
      cRawDate (sheet (migrateOldRows st) ! i) = orElse (date data') [] \<and>
      cRawTotal (sheet (migrateOldRows st) ! i) = orElse (total data') ''0.00'')"
proof -
  have 1: "sheet (snd (doPost clk (Parsed data) st)) ! (n - 1) = newRowData (rowNow clk) data"
    if "fst (doPost clk (Parsed data) st) = Accepted msg n"
    using that by (rule doPost_Accepted_row)
  have 2: "cRawDate (newRowData now data') = orElse (date data') [] \<and>
      cRawTotal (newRowData now data') = orElse (total data') []"
    by (simp add: newRowData_def)
  have 3: "sheet (snd (doPostTry rn clk p st)) = sheet st \<or>
    sheet (snd (doPostTry rn clk p st)) = sheet st @ [headerRow] \<or>
    (\<exists>d. p = Parsed d \<and>
       sheet (snd (doPostTry rn clk p st)) = sheet st @ [newRowData (rowNow clk) d]) \<or>
    (\<exists>d. p = Parsed d \<and>
       sheet (snd (doPostTry rn clk p st)) = sheet st @ [headerRow, newRowData (rowNow clk) d])"
    using doPostTry_sheet_cases[of rn clk p st]
    by (cases "sheet st = []") (auto simp add: sheet_ensureHeader)
  have 4: "sheet (migrateOldRows st) =
     (case sheet st of
        [] \<Rightarrow> []
      | h # rs \<Rightarrow>
          h # map (\<lambda>r. r\<lparr> cRawDate := cellOr (cDate r) (cRawDate r),
                            cRawTotal := cellOr (cTotal r) (cRawTotal r) \<rparr>) rs)"
    by (cases "sheet st") (simp_all add: sheet_migrateOldRows flip: migrateRow_eq)
  have 5: "debugSheet (migrateOldRows st) = debugSheet st"
    by (rule debugSheet_migrateOldRows)
  have 6: "cRawDate (sheet (migrateOldRows st) ! i) = orElse (date data') [] \<and>
      cRawTotal (sheet (migrateOldRows st) ! i) = orElse (total data') ''0.00''"
    if a: "1 \<le> i \<and> i < length (sheet st) \<and> sheet st ! i = newRowData now data'"
  proof -
    obtain h rs where hrs: "sheet st = h # rs" using a by (cases "sheet st") auto
    obtain j where j: "i = Suc j" using a by (cases i) auto
    have "j < length rs" "rs ! j = newRowData now data'" using a hrs j by auto
    then have "sheet (migrateOldRows st) ! i = migrateRow (newRowData now data')"
      using hrs j by (simp add: sheet_migrateOldRows)
    then show ?thesis using migrateRow_newRowData[of now data'] by simp
  qed
  from 1 2 3 4 5 6 show ?thesis by blast
qed

text \<open>
  C3, amended, at concrete inputs: the receipt without total appended as row 4 to a sheet of
  earlier rows, and the migration of both sheets. The row with empty raw cells gets them
  filled, and the row whose raw cells differ from its Date and Total cells gets them
  overwritten.
\<close>

theorem raw_fields_written_and_migrated_witness:
  "fst (doPost exClock (Parsed noTotal) legacyStore) = Accepted ''Receipt saved successfully'' 4 \<and>
   sheet (snd (doPost exClock (Parsed noTotal) legacyStore)) ! (4 - 1) =
     newRowData (rowNow exClock) noTotal \<and>
   cRawDate (newRowData (rowNow exClock) noTotal) = ''2024-01-01'' \<and>
   cRawTotal (newRowData (rowNow exClock) noTotal) = [] \<and>
   sheet (migrateOldRows legacyStore) =
     [headerRow,
      legacyRow\<lparr> cRawDate := ''2023-12-31'', cRawTotal := ''5.00'' \<rparr>,
      driftedRow\<lparr> cRawDate := ''1/2/2024'', cRawTotal := ''7'' \<rparr>] \<and>
   (1::nat) \<le> 3 \<and>
   3 < length (sheet (snd (doPost exClock (Parsed noTotal) legacyStore))) \<and>
   cRawTotal (sheet (migrateOldRows (snd (doPost exClock (Parsed noTotal) legacyStore))) ! 3) =
     ''0.00''"
proof -
  let ?st = "snd (doPost exClock (Parsed noTotal) legacyStore)"
  let ?row = "newRowData (rowNow exClock) noTotal"
  have h: "fst (doPost exClock (Parsed noTotal) legacyStore) =
      Accepted ''Receipt saved successfully'' 4" by code_simp
  have d: "orElse (date noTotal) [] = ''2024-01-01''" by code_simp
  have t: "orElse (total noTotal) [] = []" by code_simp
  have t0: "orElse (total noTotal) ''0.00'' = ''0.00''" by code_simp
  have l: "sheet legacyStore = [headerRow, legacyRow, driftedRow]" by (simp add: legacyStore_def)
  have c: "cellOr (cDate legacyRow) (cRawDate legacyRow) = ''2023-12-31''"
    "cellOr (cTotal legacyRow) (cRawTotal legacyRow) = ''5.00''"
    "cellOr (cDate driftedRow) (cRawDate driftedRow) = ''1/2/2024''"
    "cellOr (cTotal driftedRow) (cRawTotal driftedRow) = ''7''" by code_simp+
  have i: "(1::nat) \<le> 3 \<and> 3 < length (sheet ?st) \<and> sheet ?st ! 3 = ?row"
    by code_simp
  note th = raw_fields_written_and_migrated[where clk = exClock and data = noTotal
      and st = legacyStore and msg = "''Receipt saved successfully''" and n = 4
      and now = "rowNow exClock" and data' = noTotal]
  from th h have r: "sheet ?st ! (4 - 1) = ?row" by blast
  from th have "cRawDate ?row = orElse (date noTotal) []"
    "cRawTotal ?row = orElse (total noTotal) []" by blast+
  with d t have a: "cRawDate ?row = ''2024-01-01''" "cRawTotal ?row = []" by simp_all
  from th have "sheet (migrateOldRows legacyStore) =
     (case sheet legacyStore of
        [] \<Rightarrow> []
      | h # rs \<Rightarrow>
          h # map (\<lambda>r. r\<lparr> cRawDate := cellOr (cDate r) (cRawDate r),
                            cRawTotal := cellOr (cTotal r) (cRawTotal r) \<rparr>) rs)" by blast
  with l c have m: "sheet (migrateOldRows legacyStore) =
     [headerRow,
      legacyRow\<lparr> cRawDate := ''2023-12-31'', cRawTotal := ''5.00'' \<rparr>,
      driftedRow\<lparr> cRawDate := ''1/2/2024'', cRawTotal := ''7'' \<rparr>]" by simp
  from raw_fields_written_and_migrated[where st = ?st and i = 3
      and now = "rowNow exClock" and data' = noTotal] i
  have "cRawTotal (sheet (migrateOldRows ?st) ! 3) = orElse (total noTotal) ''0.00''" by blast
  with t0 have b: "cRawTotal (sheet (migrateOldRows ?st) ! 3) = ''0.00''" by simp
  from h r a m b i show ?thesis by simp
qed

section \<open>Further properties of the specification\<close>

text \<open>
  A sheet with no row, or with the header row only, never yields a duplicate, whatever the
  candidate.
\<close>

theorem empty_store_no_duplicate:
  assumes "getLastRow sh \<le> 1"
  shows "findDuplicate sh c = None"
  using assms by (simp add: findDuplicate_def)

theorem empty_store_no_duplicate_witness:
  "getLastRow [headerRow] \<le> 1 \<and> findDuplicate [headerRow] acmeCandidate = None \<and>
   getLastRow [] \<le> 1 \<and> findDuplicate [] acmeCandidate = None"
proof -
  have h1: "getLastRow [headerRow] \<le> 1" by (simp add: getLastRow_def)
  have h0: "getLastRow [] \<le> 1" by (simp add: getLastRow_def)
  from empty_store_no_duplicate[OF h1, of acmeCandidate]
    empty_store_no_duplicate[OF h0, of acmeCandidate] h1 h0
  show ?thesis by simp
qed

text \<open>
  A receipt without items (absent, or the empty array) is stored with the text \<open>No items\<close>
  and item count 0; the receipt with the one item Coffee, quantity 1, price 3.50, in USD, is
  stored with the text \<open>Coffee x1 @ USD 3.50\<close> and item count 1.
\<close>

theorem itemsText_examples:
  "itemsText acmeCandidate = ''No items'' \<and>
   cItemCount (newRowData now acmeCandidate) = Num 0 \<and>
   itemsText (acmeCandidate\<lparr> items := Some [] \<rparr>) = ''No items'' \<and>
   itemsText coffeeReceipt = ''Coffee x1 @ USD 3.50'' \<and>
   cItemCount (newRowData now coffeeReceipt) = Num 1"
proof -
  have "itemsText acmeCandidate = ''No items''" by code_simp
  moreover have "itemsText (acmeCandidate\<lparr> items := Some [] \<rparr>) = ''No items''" by code_simp
  moreover have "itemsText coffeeReceipt = ''Coffee x1 @ USD 3.50''" by code_simp
  moreover have "items acmeCandidate = None" by code_simp
  moreover have "items coffeeReceipt = Some [\<lparr> description = Some ''Coffee'', quantity = Some ''1'',
                        price = Some ''3.50'' \<rparr>]" by code_simp
  ultimately show ?thesis by (simp add: newRowData_def)
qed

end
